theory Spec2Isabelle
  imports Main
begin

section \<open>Values and parameter bags\<close>

text \<open>
  The parameters of an agent are a JavaScript object used as an option bag. Its values
  are modelled by \<open>jsval\<close>: the primitive values the source tests for falsiness, and
  \<open>JObj\<close> for an opaque object (a model reference, a schema descriptor, a tool set),
  named by a label. Texts are given by their UTF-8 bytes; numbers are integers (no
  \<open>NaN\<close>).
\<close>

datatype jsval = Undefined | Null | JBool bool | JNum int | JStr string | JObj string

text \<open>JavaScript's \<open>ToBoolean\<close>, which decides \<open>!x\<close> and \<open>x || y\<close>.\<close>

fun truthy :: "jsval \<Rightarrow> bool" where
  "truthy Undefined = False"
| "truthy Null = False"
| "truthy (JBool b) = b"
| "truthy (JNum n) = (n \<noteq> 0)"
| "truthy (JStr s) = (s \<noteq> [])"
| "truthy (JObj l) = True"

definition js_or :: "jsval \<Rightarrow> jsval \<Rightarrow> jsval" where
  "js_or a b = (if truthy a then a else b)"

type_synonym params = "string \<rightharpoonup> jsval"

text \<open>Reading a property: an absent key reads as \<open>undefined\<close>.\<close>

definition param :: "params \<Rightarrow> string \<Rightarrow> jsval" where
  "param ps k = (case ps k of None \<Rightarrow> Undefined | Some v \<Rightarrow> v)"

section \<open>The generation capability\<close>

text \<open>
  \<open>generateText\<close>, \<open>streamText\<close>, \<open>generateObject\<close> and \<open>streamObject\<close> are imported
  from the \<open>ai\<close> package. They are a parameter of the development: a function from the
  parameters of the call to what it produces. \<open>generateText\<close> gives the \<open>text\<close> of its
  result, \<open>generateObject\<close> the generated object, and the streaming variants the finite
  sequence of fragments of their \<open>textStream\<close>. A failure of the capability itself (a
  network error) is not modelled: a call always produces.
\<close>

record capability =
  generateText :: "params \<Rightarrow> string"
  streamText :: "params \<Rightarrow> string list"
  generateObject :: "params \<Rightarrow> jsval"
  streamObject :: "params \<Rightarrow> string list"

datatype call =
    GenerateText params
  | StreamText params
  | GenerateObject params
  | StreamObject params

datatype agent_output = TextResult string | ObjectResult jsval

section \<open>Agents\<close>

datatype agent_kind = TextAgent | ObjectAgent

record agent =
  kind :: agent_kind
  parameters :: params

text \<open>
  The source throws \<open>Error\<close> objects told apart by their message; the constructors
  carry the names the specification gives them.
\<close>

datatype error =
    MissingParameter agent_kind
  | AgentNotRegistered string
  | NoApplicableAgents

fun message :: "error \<Rightarrow> string" where
  "message (MissingParameter TextAgent) = ''Both prompt and model must be provided''"
| "message (MissingParameter ObjectAgent) = ''Both prompt, schema and model must be provided''"
| "message (AgentNotRegistered agentName) = ''Agent \"'' @ agentName @ ''\" not registered.''"
| "message NoApplicableAgents = ''No applicable agents found for the given prompt.''"

text \<open>\<open>this.parameters = { ...this.parameters, ...parameters }\<close>\<close>

definition setParameters :: "params \<Rightarrow> agent \<Rightarrow> agent" where
  "setParameters patch a = a\<lparr>parameters := parameters a ++ patch\<rparr>"

text \<open>
  \<open>execute\<close> and \<open>stream\<close> return what the caller gets (the error thrown, or the
  result) together with the calls made to the generation capability.
\<close>

definition TextAgent_execute :: "capability \<Rightarrow> agent \<Rightarrow> (error + agent_output) \<times> call list" where
  "TextAgent_execute cap a =
     (let prompt = param (parameters a) ''prompt'';
          model = param (parameters a) ''model''
      in if \<not> truthy prompt \<or> \<not> truthy model
         then (Inl (MissingParameter TextAgent), [])
         else (Inr (TextResult (generateText cap (parameters a))),
               [GenerateText (parameters a)]))"

definition TextAgent_stream :: "capability \<Rightarrow> agent \<Rightarrow> (error + string list) \<times> call list" where
  "TextAgent_stream cap a =
     (let prompt = param (parameters a) ''prompt'';
          model = param (parameters a) ''model''
      in if \<not> truthy prompt \<or> \<not> truthy model
         then (Inl (MissingParameter TextAgent), [])
         else (Inr (streamText cap (parameters a)), [StreamText (parameters a)]))"

definition validateParameters :: "agent \<Rightarrow> error + unit" where
  "validateParameters a =
     (let prompt = param (parameters a) ''prompt'';
          schema = param (parameters a) ''schema'';
          model = param (parameters a) ''model''
      in if \<not> truthy prompt \<or> \<not> truthy schema \<or> \<not> truthy model
         then Inl (MissingParameter ObjectAgent)
         else Inr ())"

definition ObjectAgent_execute :: "capability \<Rightarrow> agent \<Rightarrow> (error + agent_output) \<times> call list" where
  "ObjectAgent_execute cap a =
     (case validateParameters a of
        Inl e \<Rightarrow> (Inl e, [])
      | Inr u \<Rightarrow> (Inr (ObjectResult (generateObject cap (parameters a))),
                  [GenerateObject (parameters a)]))"

definition ObjectAgent_stream :: "capability \<Rightarrow> agent \<Rightarrow> (error + string list) \<times> call list" where
  "ObjectAgent_stream cap a =
     (case validateParameters a of
        Inl e \<Rightarrow> (Inl e, [])
      | Inr u \<Rightarrow> (Inr (streamObject cap (parameters a)), [StreamObject (parameters a)]))"

text \<open>Method dispatch on the class of the agent.\<close>

definition agent_execute :: "capability \<Rightarrow> agent \<Rightarrow> (error + agent_output) \<times> call list" where
  "agent_execute cap a =
     (case kind a of
        TextAgent \<Rightarrow> TextAgent_execute cap a
      | ObjectAgent \<Rightarrow> ObjectAgent_execute cap a)"

definition agent_stream :: "capability \<Rightarrow> agent \<Rightarrow> (error + string list) \<times> call list" where
  "agent_stream cap a =
     (case kind a of
        TextAgent \<Rightarrow> TextAgent_stream cap a
      | ObjectAgent \<Rightarrow> ObjectAgent_stream cap a)"

section \<open>Strings\<close>

text \<open>
  A JavaScript string is modelled by the bytes of its UTF-8 encoding.
  \<open>String.prototype.trim\<close> removes the code points of \<open>WhiteSpace\<close> and
  \<open>LineTerminator\<close> at both ends: TAB, LF, VT, FF, CR, SPACE, U+00A0, U+1680,
  U+2000 to U+200A, U+2028, U+2029, U+202F, U+205F, U+3000 and U+FEFF, here each by
  its encoding.
\<close>

definition white_space :: "string list" where
  "white_space =
     [[CHR 0x09], [CHR 0x0A], [CHR 0x0B], [CHR 0x0C], [CHR 0x0D], [CHR 0x20],
      [CHR 0xC2, CHR 0xA0],
      [CHR 0xE1, CHR 0x9A, CHR 0x80],
      [CHR 0xE2, CHR 0x80, CHR 0x80], [CHR 0xE2, CHR 0x80, CHR 0x81],
      [CHR 0xE2, CHR 0x80, CHR 0x82], [CHR 0xE2, CHR 0x80, CHR 0x83],
      [CHR 0xE2, CHR 0x80, CHR 0x84], [CHR 0xE2, CHR 0x80, CHR 0x85],
      [CHR 0xE2, CHR 0x80, CHR 0x86], [CHR 0xE2, CHR 0x80, CHR 0x87],
      [CHR 0xE2, CHR 0x80, CHR 0x88], [CHR 0xE2, CHR 0x80, CHR 0x89],
      [CHR 0xE2, CHR 0x80, CHR 0x8A],
      [CHR 0xE2, CHR 0x80, CHR 0xA8], [CHR 0xE2, CHR 0x80, CHR 0xA9],
      [CHR 0xE2, CHR 0x80, CHR 0xAF],
      [CHR 0xE2, CHR 0x81, CHR 0x9F],
      [CHR 0xE3, CHR 0x80, CHR 0x80],
      [CHR 0xEF, CHR 0xBB, CHR 0xBF]]"

text \<open>
  \<open>strip us s\<close> removes from the start of \<open>s\<close> every leading occurrence of one of
  the words \<open>us\<close>, until none is left. Trimming the end is stripping the reversed
  string of the reversed words.
\<close>

function strip :: "string list \<Rightarrow> string \<Rightarrow> string" where
  "strip us s =
     (case List.find (\<lambda>u. u \<noteq> [] \<and> take (length u) s = u) us of
        None \<Rightarrow> s
      | Some u \<Rightarrow> strip us (drop (length u) s))"
  by pat_completeness auto
termination
proof (relation "measure (\<lambda>(us, s). length s)")
  show "wf (measure (\<lambda>(us, s). length s))"
    by simp
next
  fix us :: "string list" and s u :: string
  assume "List.find (\<lambda>u. u \<noteq> [] \<and> take (length u) s = u) us = Some u"
  then have "u \<noteq> []" and "take (length u) s = u"
    by (auto simp: find_Some_iff)
  then have "s \<noteq> []"
    by auto
  with \<open>u \<noteq> []\<close> show "((us, drop (length u) s), (us, s)) \<in> measure (\<lambda>(us, s). length s)"
    by simp
qed

declare strip.simps [simp del]

definition trim :: "string \<Rightarrow> string" where
  "trim s = rev (strip (map rev white_space) (rev (strip white_space s)))"

text \<open>
  \<open>s.split(sep)\<close> for a separator of one character: the pieces between the
  occurrences of the separator, empty pieces kept. The pieces of the rest are never an
  empty list (\<open>split_not_Nil\<close> below), so the first branch of the \<open>case\<close> is not taken.
\<close>

fun split :: "char \<Rightarrow> string \<Rightarrow> string list" where
  "split sep [] = [[]]"
| "split sep (c # cs) =
     (if c = sep then [] # split sep cs
      else (case split sep cs of
              [] \<Rightarrow> [[c]]
            | piece # pieces \<Rightarrow> (c # piece) # pieces))"

text \<open>\<open>xs.join(sep)\<close>\<close>

fun join :: "string \<Rightarrow> string list \<Rightarrow> string" where
  "join sep [] = []"
| "join sep [x] = x"
| "join sep (x # y # ys) = x @ sep @ join sep (y # ys)"

section \<open>The network\<close>

text \<open>
  Agents are objects: the registry of a network and its caller hold references to
  them, and \<open>setParameters\<close> updates the object in place. The store \<open>heap\<close> maps a
  reference to the agent it denotes. The registry is a JavaScript \<open>Map\<close>, which keeps
  its keys in insertion order.
\<close>

type_synonym ref = nat

record network =
  agents :: "(string \<times> ref) list"
  defaultModel :: jsval

definition Network :: "jsval \<Rightarrow> network" where
  "Network model = \<lparr>agents = [], defaultModel = model\<rparr>"

text \<open>\<open>Map.prototype.set\<close>: the value of a present key is replaced where it stands.\<close>

fun map_set :: "string \<Rightarrow> ref \<Rightarrow> (string \<times> ref) list \<Rightarrow> (string \<times> ref) list" where
  "map_set k v [] = [(k, v)]"
| "map_set k v ((k', v') # rest) =
     (if k' = k then (k, v) # rest else (k', v') # map_set k v rest)"

definition registerAgent :: "string \<Rightarrow> ref \<Rightarrow> network \<Rightarrow> network" where
  "registerAgent name r net = net\<lparr>agents := map_set name r (agents net)\<rparr>"

text \<open>
  What a run can be observed to do, oldest first: \<open>Dispatch n\<close> when \<open>executeAgent\<close> is
  entered with the name \<open>n\<close>, \<open>Call c\<close> when the generation capability is invoked, and
  \<open>Callback i s\<close> when \<open>streamCallback(s)\<close> is invoked from the \<open>i\<close>-th dispatch.
\<close>

datatype event = Dispatch string | Call call | Callback nat string

record world =
  heap :: "ref \<Rightarrow> agent"
  trace :: "event list"

definition emit :: "event list \<Rightarrow> world \<Rightarrow> world" where
  "emit es w = w\<lparr>trace := trace w @ es\<rparr>"

text \<open>The options of \<open>Network.execute\<close>; \<open>streamCallback\<close> tells whether one is supplied.\<close>

record exec_params =
  multipleAgents :: bool
  stream :: bool
  streamCallback :: bool

text \<open>The defaults of the destructuring: \<open>multipleAgents = false, stream = false\<close>.\<close>

definition default_params :: exec_params where
  "default_params = \<lparr>multipleAgents = False, stream = False, streamCallback = False\<rparr>"

definition inferencePrompt :: "network \<Rightarrow> string \<Rightarrow> bool \<Rightarrow> string" where
  "inferencePrompt net prompt multiple =
     ''\<newline>      You are tasked with determining which agents should be used to handle a user's request.''
     @ ''\<newline>      Available agents: '' @ join '', '' (map fst (agents net)) @ ''.''
     @ ''\<newline>      User prompt: \"'' @ prompt @ ''\"''
     @ ''\<newline>      Should multiple agents be used? '' @ (if multiple then ''Yes'' else ''No'') @ ''.''
     @ ''\<newline>      Return the agent names that should be used as a comma-separated list.''
     @ ''\<newline>    ''"

definition inference_call :: "network \<Rightarrow> string \<Rightarrow> bool \<Rightarrow> params" where
  "inference_call net prompt multiple =
     [''model'' \<mapsto> js_or (defaultModel net) (JObj ''openai(gpt-4o-2024-11-20)''),
      ''prompt'' \<mapsto> JStr (inferencePrompt net prompt multiple),
      ''maxTokens'' \<mapsto> JNum 50]"

definition parse_names :: "string \<Rightarrow> string list" where
  "parse_names text = map trim (split CHR '','' (trim text))"

definition inferAgents ::
    "capability \<Rightarrow> network \<Rightarrow> string \<Rightarrow> bool \<Rightarrow> world \<Rightarrow> string list \<times> world" where
  "inferAgents cap net prompt multiple w =
     (let ps = inference_call net prompt multiple;
          text = generateText cap ps
      in (parse_names text, emit [Call (GenerateText ps)] w))"

text \<open>
  \<open>executeAgent\<close> is an \<open>async\<close> function: a call runs up to its first \<open>await\<close> that
  has to wait and returns a promise. The state of that promise when the call returns:
  \<^item> \<open>Rejected e\<close>: the body has thrown \<open>e\<close> already (the name is not registered, or
    \<open>agent.stream()\<close> threw), the promise is rejected;
  \<^item> \<open>Failing e\<close>: \<open>agent.execute()\<close>, itself \<open>async\<close>, returned a rejected promise;
    the body is suspended at \<open>await\<close> and rejects with \<open>e\<close> when it resumes;
  \<^item> \<open>Executing n out\<close>: the generation call is under way; on resuming with its result
    \<open>out\<close> the body does \<open>result.set(n, out)\<close>;
  \<^item> \<open>Streaming fs\<close>: the \<open>for await\<close> loop is about to consume the fragments \<open>fs\<close>.
\<close>

datatype task =
    Rejected error
  | Failing error
  | Executing string agent_output
  | Streaming "string list"

definition executeAgent ::
    "capability \<Rightarrow> network \<Rightarrow> string \<Rightarrow> bool \<Rightarrow> string \<Rightarrow> world \<Rightarrow> task \<times> world" where
  "executeAgent cap net prompt streamed agentName w0 =
     (let w = emit [Dispatch agentName] w0 in
      case map_of (agents net) agentName of
        None \<Rightarrow> (Rejected (AgentNotRegistered agentName), w)
      | Some r \<Rightarrow>
          (let patch = [''prompt'' \<mapsto> JStr prompt,
                        ''model'' \<mapsto> js_or (param (parameters (heap w r)) ''model'')
                                          (defaultModel net)];
               a = setParameters patch (heap w r);
               w1 = w\<lparr>heap := (heap w)(r := a)\<rparr>
           in if streamed then
                (case agent_stream cap a of
                   (Inl e, calls) \<Rightarrow> (Rejected e, emit (map Call calls) w1)
                 | (Inr textStream, calls) \<Rightarrow> (Streaming textStream, emit (map Call calls) w1))
              else
                (case agent_execute cap a of
                   (Inl e, calls) \<Rightarrow> (Failing e, emit (map Call calls) w1)
                 | (Inr out, calls) \<Rightarrow> (Executing agentName out, emit (map Call calls) w1))))"

text \<open>
  \<open>await executeAgent(agentNames[0])\<close>: the one task runs to its end. \<open>result\<close> is the
  mapping the call of \<open>execute\<close> returns.
\<close>

fun await_task ::
    "bool \<Rightarrow> task \<Rightarrow> (string \<rightharpoonup> agent_output) \<Rightarrow> world
      \<Rightarrow> (error + (string \<rightharpoonup> agent_output)) \<times> world" where
  "await_task cb (Rejected e) result w = (Inl e, w)"
| "await_task cb (Failing e) result w = (Inl e, w)"
| "await_task cb (Executing n out) result w = (Inr (result(n \<mapsto> out)), w)"
| "await_task cb (Streaming fs) result w =
     (Inr result, if cb then emit (map (Callback 0) fs) w else w)"

text \<open>\<open>agentNames.map(executeAgent)\<close>: the calls are made one after the other.\<close>

fun dispatch_all ::
    "capability \<Rightarrow> network \<Rightarrow> string \<Rightarrow> bool \<Rightarrow> string list \<Rightarrow> world \<Rightarrow> task list \<times> world" where
  "dispatch_all cap net prompt streamed [] w = ([], w)"
| "dispatch_all cap net prompt streamed (n # ns) w =
     (let (t, w1) = executeAgent cap net prompt streamed n w;
          (ts, w2) = dispatch_all cap net prompt streamed ns w1
      in (t # ts, w2))"

text \<open>
  \<open>Promise.all\<close> rejects with the reason of the promise whose rejection it sees first.
  It subscribes to the promises in order, and the reaction of a promise that is rejected
  already is queued at that moment; a \<open>Failing\<close> task rejects its promise only when its
  body resumes, so that its reaction is queued after those. Hence the first \<open>Rejected\<close>
  task decides, and the first \<open>Failing\<close> one when there is none.
\<close>

fun rejected :: "task list \<Rightarrow> error list" where
  "rejected [] = []"
| "rejected (Rejected e # ts) = e # rejected ts"
| "rejected (t # ts) = rejected ts"

fun failing :: "task list \<Rightarrow> error list" where
  "failing [] = []"
| "failing (Failing e # ts) = e # failing ts"
| "failing (t # ts) = failing ts"

definition first_rejection :: "task list \<Rightarrow> error option" where
  "first_rejection ts =
     (case rejected ts of
        e # es \<Rightarrow> Some e
      | [] \<Rightarrow> (case failing ts of e # es \<Rightarrow> Some e | [] \<Rightarrow> None))"

text \<open>
  The tasks that wait for a generation call store its result when it arrives. The
  capability is a function of the parameters of the call, so the mapping they build
  does not depend on the order of the arrivals: it is built in the order of dispatch.
\<close>

fun collect :: "task list \<Rightarrow> (string \<rightharpoonup> agent_output) \<Rightarrow> (string \<rightharpoonup> agent_output)" where
  "collect [] result = result"
| "collect (Executing n out # ts) result = collect ts (result(n \<mapsto> out))"
| "collect (t # ts) result = collect ts result"

text \<open>
  The streams of concurrent tasks are consumed as their fragments arrive. The schedule
  lists, arrival by arrival, the position of the task whose next fragment comes; what
  is left when the schedule ends arrives task after task. A fragment is paired with
  the position of its task.
\<close>

fun streams :: "task list \<Rightarrow> string list list" where
  "streams [] = []"
| "streams (Streaming fs # ts) = fs # streams ts"
| "streams (t # ts) = [] # streams ts"

fun number_from :: "nat \<Rightarrow> string list list \<Rightarrow> (nat \<times> string) list" where
  "number_from i [] = []"
| "number_from i (fs # fss) = map (Pair i) fs @ number_from (Suc i) fss"

fun drain :: "nat list \<Rightarrow> string list list \<Rightarrow> (nat \<times> string) list" where
  "drain [] fss = number_from 0 fss"
| "drain (i # schedule) fss =
     (if i < length fss then
        (case fss ! i of
           [] \<Rightarrow> drain schedule fss
         | f # fs \<Rightarrow> (i, f) # drain schedule (fss[i := fs]))
      else drain schedule fss)"

definition await_all ::
    "nat list \<Rightarrow> bool \<Rightarrow> task list \<Rightarrow> (string \<rightharpoonup> agent_output) \<Rightarrow> world
      \<Rightarrow> (error + (string \<rightharpoonup> agent_output)) \<times> world" where
  "await_all schedule cb ts result w =
     (let w1 = (if cb then emit (map (\<lambda>(i, f). Callback i f) (drain schedule (streams ts))) w
                else w)
      in case first_rejection ts of
           Some e \<Rightarrow> (Inl e, w1)
         | None \<Rightarrow> (Inr (collect ts result), w1))"

definition execute ::
    "capability \<Rightarrow> nat list \<Rightarrow> network \<Rightarrow> string \<Rightarrow> exec_params \<Rightarrow> world
      \<Rightarrow> (error + (string \<rightharpoonup> agent_output)) \<times> world" where
  "execute cap schedule net prompt ps w =
     (let (agentNames, w1) = inferAgents cap net prompt (multipleAgents ps) w in
      if length agentNames = 0 then (Inl NoApplicableAgents, w1)
      else
        (let result = Map.empty in
         if \<not> multipleAgents ps then
           (let (t, w2) = executeAgent cap net prompt (stream ps) (agentNames ! 0) w1
            in await_task (streamCallback ps) t result w2)
         else
           (let (ts, w2) = dispatch_all cap net prompt (stream ps) agentNames w1
            in await_all schedule (streamCallback ps) ts result w2)))"

text \<open>The names entered by \<open>executeAgent\<close>, and the calls to the capability, of a trace.\<close>

fun dispatched :: "event list \<Rightarrow> string list" where
  "dispatched [] = []"
| "dispatched (Dispatch n # es) = n # dispatched es"
| "dispatched (e # es) = dispatched es"

fun calls_of :: "event list \<Rightarrow> call list" where
  "calls_of [] = []"
| "calls_of (Call c # es) = c # calls_of es"
| "calls_of (e # es) = calls_of es"



section \<open>Notions used in the statements\<close>

text \<open>
  The keys each class tests before it delegates, and what it delegates to: the call
  it makes to the capability and what the call gives, blocking and streaming.
\<close>

fun required :: "agent_kind \<Rightarrow> string list" where
  "required TextAgent = [''prompt'', ''model'']"
| "required ObjectAgent = [''prompt'', ''schema'', ''model'']"

fun generation :: "capability \<Rightarrow> agent_kind \<Rightarrow> params \<Rightarrow> agent_output" where
  "generation cap TextAgent ps = TextResult (generateText cap ps)"
| "generation cap ObjectAgent ps = ObjectResult (generateObject cap ps)"

fun generation_call :: "agent_kind \<Rightarrow> params \<Rightarrow> call" where
  "generation_call TextAgent ps = GenerateText ps"
| "generation_call ObjectAgent ps = GenerateObject ps"

fun streaming :: "capability \<Rightarrow> agent_kind \<Rightarrow> params \<Rightarrow> string list" where
  "streaming cap TextAgent ps = streamText cap ps"
| "streaming cap ObjectAgent ps = streamObject cap ps"

fun streaming_call :: "agent_kind \<Rightarrow> params \<Rightarrow> call" where
  "streaming_call TextAgent ps = StreamText ps"
| "streaming_call ObjectAgent ps = StreamObject ps"

text \<open>An agent passes the check of its class when every key the class tests is truthy.\<close>

definition passes :: "agent \<Rightarrow> bool" where
  "passes a = (\<forall>k \<in> set (required (kind a)). truthy (param (parameters a) k))"

text \<open>
  The agent after the \<open>setParameters\<close> call of \<open>executeAgent\<close>, for the prompt of the
  run and the default model of the network.
\<close>

definition merged :: "network \<Rightarrow> string \<Rightarrow> agent \<Rightarrow> agent" where
  "merged net prompt a =
     setParameters [''prompt'' \<mapsto> JStr prompt,
                    ''model'' \<mapsto> js_or (param (parameters a) ''model'') (defaultModel net)] a"

text \<open>The names the inference step of a run yields.\<close>

definition inferred :: "capability \<Rightarrow> network \<Rightarrow> string \<Rightarrow> bool \<Rightarrow> string list" where
  "inferred cap net prompt multiple =
     parse_names (generateText cap (inference_call net prompt multiple))"

text \<open>The names a run dispatches: all the inferred names, or the first one only.\<close>

definition targets :: "capability \<Rightarrow> network \<Rightarrow> string \<Rightarrow> exec_params \<Rightarrow> string list" where
  "targets cap net prompt ps =
     (if multipleAgents ps then inferred cap net prompt True
      else [hd (inferred cap net prompt False)])"

text \<open>
  A name can be run from a store when it is registered and its agent passes the check
  of its class once the prompt and the model are merged in.
\<close>

definition runnable :: "network \<Rightarrow> string \<Rightarrow> (ref \<Rightarrow> agent) \<Rightarrow> string \<Rightarrow> bool" where
  "runnable net prompt h n =
     (case map_of (agents net) n of
        None \<Rightarrow> False
      | Some r \<Rightarrow> passes (merged net prompt (h r)))"

text \<open>The tasks of a run, each as \<open>executeAgent\<close> leaves it when started from \<open>w\<close>.\<close>

definition tasks :: "capability \<Rightarrow> network \<Rightarrow> string \<Rightarrow> exec_params \<Rightarrow> world \<Rightarrow> task list" where
  "tasks cap net prompt ps w =
     map (\<lambda>n. fst (executeAgent cap net prompt (stream ps) n w)) (targets cap net prompt ps)"

text \<open>
  The call one dispatch makes to the capability: none for a name that is not
  registered or an agent that fails its check.
\<close>

definition agent_calls :: "network \<Rightarrow> string \<Rightarrow> bool \<Rightarrow> (ref \<Rightarrow> agent) \<Rightarrow> string \<Rightarrow> call list" where
  "agent_calls net prompt streamed h n =
     (case map_of (agents net) n of
        None \<Rightarrow> []
      | Some r \<Rightarrow>
          (let a = merged net prompt (h r) in
           if passes a
           then [(if streamed then streaming_call else generation_call) (kind a) (parameters a)]
           else []))"

section \<open>Example values\<close>

text \<open>
  A capability for the examples: it answers the inference call (the one with
  \<open>maxTokens: 50\<close>) with the given selection, and every agent with fixed outputs.
  \<open>blank\<close> is a store of text agents constructed without parameters.
\<close>

definition scripted :: "string \<Rightarrow> capability" where
  "scripted selection =
     \<lparr>generateText = (\<lambda>ps. if ps ''maxTokens'' = Some (JNum 50) then selection else ''Hello, world''),
      streamText = (\<lambda>ps. [''Hello'', '', '', ''world'']),
      generateObject = (\<lambda>ps. JObj ''form''),
      streamObject = (\<lambda>ps. [''{'', ''}''])\<rparr>"

definition blank :: "ref \<Rightarrow> agent" where
  "blank r = \<lparr>kind = TextAgent, parameters = Map.empty\<rparr>"

text \<open>
  A store with a text agent that has a model and a prompt of its own (reference 0) and
  an object agent with a schema and no model (reference 1); a network with the default
  model \<open>M2\<close> that registers them as \<open>a\<close> and \<open>b\<close>.
\<close>

definition studio :: "ref \<Rightarrow> agent" where
  "studio r =
     (if r = 0 then
        \<lparr>kind = TextAgent,
         parameters = [''system'' \<mapsto> JStr ''You are a writer.'', ''model'' \<mapsto> JObj ''M1'',
                       ''prompt'' \<mapsto> JStr ''draft'']\<rparr>
      else if r = 1 then
        \<lparr>kind = ObjectAgent,
         parameters = [''system'' \<mapsto> JStr ''You are a form builder agent.'',
                       ''schema'' \<mapsto> JObj ''z.object'']\<rparr>
      else \<lparr>kind = TextAgent, parameters = Map.empty\<rparr>)"

definition office :: network where
  "office = registerAgent ''b'' 1 (registerAgent ''a'' 0 (Network (JObj ''M2'')))"

definition start :: world where
  "start = \<lparr>heap = studio, trace = []\<rparr>"

text \<open>
  Options: several agents at once, blocking (\<open>both\<close>) or streaming to a callback
  (\<open>live\<close>). \<open>bare\<close> is a network without a default model whose one agent, \<open>c\<close>, has
  no model either.
\<close>

definition both :: exec_params where
  "both = \<lparr>multipleAgents = True, stream = False, streamCallback = False\<rparr>"

definition live :: exec_params where
  "live = \<lparr>multipleAgents = True, stream = True, streamCallback = True\<rparr>"

definition bare :: network where
  "bare = registerAgent ''c'' 2 (Network Undefined)"

text \<open>
  \<open>attic\<close> is a store of text agents whose \<open>model\<close> key holds \<open>undefined\<close>, as a run
  under a network without a default model leaves it; \<open>annex\<close> is a network with a
  default model and one agent, \<open>d\<close>.
\<close>

definition attic :: "ref \<Rightarrow> agent" where
  "attic r = \<lparr>kind = TextAgent, parameters = [''model'' \<mapsto> Undefined]\<rparr>"

definition annex :: network where
  "annex = registerAgent ''d'' 0 (Network (JObj ''M2''))"



section \<open>Lemmas\<close>

subsection \<open>Parsing the selection\<close>

lemma split_not_Nil: "split sep s \<noteq> []"
  by (induction s) (auto split: list.splits)

lemma parse_names_not_Nil: "parse_names t \<noteq> []"
  by (simp add: parse_names_def split_not_Nil)

lemma strip_Nil: "strip us [] = []"
proof -
  have "List.find (\<lambda>u. u \<noteq> [] \<and> take (length u) [] = u) us = None"
    by (auto simp: find_None_iff)
  then show ?thesis
    by (subst strip.simps) simp
qed

lemma trim_Nil: "trim [] = []"
  by (simp add: trim_def strip_Nil)

lemma parse_names_empty: "parse_names [] = [[]]"
  by (simp add: parse_names_def trim_Nil)

lemma inferred_not_Nil: "inferred cap net prompt multiple \<noteq> []"
  by (simp add: inferred_def parse_names_not_Nil)

lemma inferAgents_eq:
  "inferAgents cap net prompt multiple w =
     (inferred cap net prompt multiple,
      emit [Call (GenerateText (inference_call net prompt multiple))] w)"
  by (simp add: inferAgents_def inferred_def Let_def)

subsection \<open>The checks of the agents\<close>

lemma agent_execute_eq:
  "agent_execute cap a =
     (if passes a
      then (Inr (generation cap (kind a) (parameters a)), [generation_call (kind a) (parameters a)])
      else (Inl (MissingParameter (kind a)), []))"
  by (cases "kind a")
     (auto simp: agent_execute_def TextAgent_execute_def ObjectAgent_execute_def
                 validateParameters_def passes_def Let_def)

lemma agent_stream_eq:
  "agent_stream cap a =
     (if passes a
      then (Inr (streaming cap (kind a) (parameters a)), [streaming_call (kind a) (parameters a)])
      else (Inl (MissingParameter (kind a)), []))"
  by (cases "kind a")
     (auto simp: agent_stream_def TextAgent_stream_def ObjectAgent_stream_def
                 validateParameters_def passes_def Let_def)

lemma passes_falsy:
  "k \<in> set (required (kind a)) \<Longrightarrow> \<not> truthy (param (parameters a) k) \<Longrightarrow> \<not> passes a"
  by (auto simp: passes_def)

subsection \<open>The merge of prompt and model\<close>

lemma merged_idem: "merged net prompt (merged net prompt a) = merged net prompt a"
  by (cases a) (auto simp: merged_def setParameters_def param_def js_or_def fun_eq_iff map_add_def)

lemma kind_merged: "kind (merged net prompt a) = kind a"
  by (simp add: merged_def setParameters_def)

lemma parameters_merged:
  "parameters (merged net prompt a) k =
     (if k = ''prompt'' then Some (JStr prompt)
      else if k = ''model'' then Some (js_or (param (parameters a) ''model'') (defaultModel net))
      else parameters a k)"
  by (simp add: merged_def setParameters_def)

subsection \<open>Traces\<close>

lemma heap_emit: "heap (emit es w) = heap w"
  by (simp add: emit_def)

lemma trace_emit: "trace (emit es w) = trace w @ es"
  by (simp add: emit_def)

lemma dispatched_append: "dispatched (xs @ ys) = dispatched xs @ dispatched ys"
  by (induction xs rule: dispatched.induct) simp_all

lemma calls_of_append: "calls_of (xs @ ys) = calls_of xs @ calls_of ys"
  by (induction xs rule: calls_of.induct) simp_all


lemma dispatched_Calls: "dispatched (map Call cs) = []"
  by (induction cs) auto


lemma dispatched_Callbacks: "dispatched (map (\<lambda>(i, f). Callback i f) xs) = []"
  by (induction xs) auto

lemma dispatched_Callbacks0: "dispatched (map (Callback i) fs) = []"
  by (induction fs) auto



subsection \<open>One dispatch\<close>

lemma executeAgent_None:
  "map_of (agents net) n = None \<Longrightarrow>
   executeAgent cap net prompt streamed n w =
     (Rejected (AgentNotRegistered n), emit [Dispatch n] w)"
  by (simp add: executeAgent_def Let_def)

lemma executeAgent_Some:
  "map_of (agents net) n = Some r \<Longrightarrow>
   executeAgent cap net prompt streamed n w =
     (let a = merged net prompt (heap w r) in
      (if streamed
       then (if passes a then Streaming (streaming cap (kind a) (parameters a))
             else Rejected (MissingParameter (kind a)))
       else (if passes a then Executing n (generation cap (kind a) (parameters a))
             else Failing (MissingParameter (kind a))),
       \<lparr>heap = (heap w)(r := a),
        trace = trace w @ Dispatch n #
          (if passes a
           then [Call ((if streamed then streaming_call else generation_call) (kind a) (parameters a))]
           else [])\<rparr>))"
  by (simp add: executeAgent_def Let_def merged_def emit_def agent_execute_eq agent_stream_eq)

lemma heap_executeAgent:
  "heap (snd (executeAgent cap net prompt streamed n w)) =
     (case map_of (agents net) n of
        None \<Rightarrow> heap w
      | Some r \<Rightarrow> (heap w)(r := merged net prompt (heap w r)))"
  by (cases "map_of (agents net) n")
     (simp_all add: executeAgent_None executeAgent_Some emit_def Let_def)

lemma merged_heap_executeAgent:
  "merged net prompt (heap (snd (executeAgent cap net prompt streamed n w)) r) =
   merged net prompt (heap w r)"
  by (cases "map_of (agents net) n") (simp_all add: heap_executeAgent merged_idem)

lemma task_executeAgent_cong:
  "(\<And>r. merged net prompt (heap w r) = merged net prompt (heap w' r)) \<Longrightarrow>
   fst (executeAgent cap net prompt streamed n w) = fst (executeAgent cap net prompt streamed n w')"
  by (cases "map_of (agents net) n") (simp_all add: executeAgent_None executeAgent_Some Let_def)

lemma task_emit:
  "fst (executeAgent cap net prompt streamed n (emit es w)) =
   fst (executeAgent cap net prompt streamed n w)"
  by (rule task_executeAgent_cong) (simp add: heap_emit)

lemma task_runnable:
  "map_of (agents net) n = Some r \<Longrightarrow> passes (merged net prompt (heap w r)) \<Longrightarrow>
   fst (executeAgent cap net prompt streamed n w) =
     (if streamed
      then Streaming (streaming cap (kind (heap w r)) (parameters (merged net prompt (heap w r))))
      else Executing n (generation cap (kind (heap w r)) (parameters (merged net prompt (heap w r)))))"
  by (simp add: executeAgent_Some Let_def kind_merged)

lemma task_failing:
  "map_of (agents net) n = Some r \<Longrightarrow> \<not> passes (merged net prompt (heap w r)) \<Longrightarrow>
   fst (executeAgent cap net prompt streamed n w) =
     (if streamed then Rejected (MissingParameter (kind (heap w r)))
      else Failing (MissingParameter (kind (heap w r))))"
  by (simp add: executeAgent_Some Let_def kind_merged)

lemma task_unregistered:
  "map_of (agents net) n = None \<Longrightarrow>
   fst (executeAgent cap net prompt streamed n w) = Rejected (AgentNotRegistered n)"
  by (simp add: executeAgent_None)

lemma task_settles_iff:
  "(\<forall>e. fst (executeAgent cap net prompt streamed n w) \<noteq> Rejected e
      \<and> fst (executeAgent cap net prompt streamed n w) \<noteq> Failing e)
   \<longleftrightarrow> runnable net prompt (heap w) n"
proof (cases "map_of (agents net) n")
  case None
  then show ?thesis by (simp add: task_unregistered runnable_def)
next
  case (Some r)
  then show ?thesis
    by (cases "passes (merged net prompt (heap w r))")
       (auto simp: task_runnable task_failing runnable_def)
qed

lemma task_error_executeAgent:
  "fst (executeAgent cap net prompt streamed n w) = Rejected e
     \<or> fst (executeAgent cap net prompt streamed n w) = Failing e
   \<Longrightarrow> e \<noteq> NoApplicableAgents"
  by (cases "map_of (agents net) n")
     (auto simp: executeAgent_None executeAgent_Some Let_def split: if_splits)


lemma task_registered_Rejected:
  assumes "map_of (agents net) m = Some r"
      and "fst (executeAgent cap net prompt streamed m w) = Rejected e"
  shows "streamed \<and> e = MissingParameter (kind (heap w r))"
  using assms
  by (cases "passes (merged net prompt (heap w r))")
     (auto simp: task_runnable task_failing split: if_splits)

lemma trace_executeAgent:
  "\<exists>cs. trace (snd (executeAgent cap net prompt streamed n w)) = trace w @ Dispatch n # map Call cs"
proof (cases "map_of (agents net) n")
  case None
  then have "trace (snd (executeAgent cap net prompt streamed n w)) = trace w @ Dispatch n # map Call []"
    by (simp add: executeAgent_None trace_emit)
  then show ?thesis by blast
next
  case (Some r)
  let ?a = "merged net prompt (heap w r)"
  let ?cs = "if passes ?a
             then [(if streamed then streaming_call else generation_call) (kind ?a) (parameters ?a)]
             else []"
  have "trace (snd (executeAgent cap net prompt streamed n w)) = trace w @ Dispatch n # map Call ?cs"
    using Some by (simp add: executeAgent_Some Let_def)
  then show ?thesis by blast
qed

lemma dispatched_executeAgent:
  "dispatched (trace (snd (executeAgent cap net prompt streamed n w))) = dispatched (trace w) @ [n]"
  using trace_executeAgent [of cap net prompt streamed n w]
  by (auto simp: dispatched_append dispatched_Calls)


subsection \<open>A batch of dispatches\<close>

lemma tasks_dispatch_all:
  "fst (dispatch_all cap net prompt streamed ns w) =
   map (\<lambda>n. fst (executeAgent cap net prompt streamed n w)) ns"
proof (induction ns arbitrary: w)
  case Nil
  show ?case by simp
next
  case (Cons n ns)
  obtain t w1 where e: "executeAgent cap net prompt streamed n w = (t, w1)"
    by (cases "executeAgent cap net prompt streamed n w")
  have same: "\<And>r. merged net prompt (heap w1 r) = merged net prompt (heap w r)"
    using merged_heap_executeAgent [of net prompt cap streamed n w] e by simp
  have "map (\<lambda>m. fst (executeAgent cap net prompt streamed m w1)) ns =
        map (\<lambda>m. fst (executeAgent cap net prompt streamed m w)) ns"
    using task_executeAgent_cong [OF same] by simp
  with Cons.IH [of w1] e show ?case
    by (simp add: split_beta)
qed

lemma heap_dispatch_all:
  "heap (snd (dispatch_all cap net prompt streamed ns w)) r =
     (if \<exists>n \<in> set ns. map_of (agents net) n = Some r
      then merged net prompt (heap w r) else heap w r)"
proof (induction ns arbitrary: w)
  case Nil
  show ?case by simp
next
  case (Cons n ns)
  obtain t w1 where e: "executeAgent cap net prompt streamed n w = (t, w1)"
    by (cases "executeAgent cap net prompt streamed n w")
  have h1: "heap w1 r = (if map_of (agents net) n = Some r
                         then merged net prompt (heap w r) else heap w r)"
    using heap_executeAgent [of cap net prompt streamed n w] e
    by (auto split: option.splits)
  have m1: "merged net prompt (heap w1 r) = merged net prompt (heap w r)"
    using merged_heap_executeAgent [of net prompt cap streamed n w r] e by simp
  have "heap (snd (dispatch_all cap net prompt streamed (n # ns) w)) r =
        heap (snd (dispatch_all cap net prompt streamed ns w1)) r"
    using e by (simp add: split_beta)
  also have "\<dots> = (if \<exists>n \<in> set ns. map_of (agents net) n = Some r
                    then merged net prompt (heap w1 r) else heap w1 r)"
    by (rule Cons.IH)
  also have "\<dots> = (if \<exists>m \<in> set (n # ns). map_of (agents net) m = Some r
                    then merged net prompt (heap w r) else heap w r)"
    using h1 m1 by auto
  finally show ?case .
qed

lemma dispatched_dispatch_all:
  "dispatched (trace (snd (dispatch_all cap net prompt streamed ns w))) = dispatched (trace w) @ ns"
proof (induction ns arbitrary: w)
  case Nil
  show ?case by simp
next
  case (Cons n ns)
  obtain t w1 where e: "executeAgent cap net prompt streamed n w = (t, w1)"
    by (cases "executeAgent cap net prompt streamed n w")
  have "dispatched (trace w1) = dispatched (trace w) @ [n]"
    using dispatched_executeAgent [of cap net prompt streamed n w] e by simp
  with Cons.IH [of w1] e show ?case
    by (simp add: split_beta)
qed


subsection \<open>Rejections\<close>

lemma rejected_mem: "e \<in> set (rejected ts) \<Longrightarrow> Rejected e \<in> set ts"
  by (induction ts rule: rejected.induct) auto

lemma rejected_member: "Rejected e \<in> set ts \<Longrightarrow> e \<in> set (rejected ts)"
  by (induction ts rule: rejected.induct) auto

lemma failing_mem: "e \<in> set (failing ts) \<Longrightarrow> Failing e \<in> set ts"
  by (induction ts rule: failing.induct) auto

lemma rejected_append: "rejected (xs @ ys) = rejected xs @ rejected ys"
  by (induction xs rule: rejected.induct) simp_all

lemma rejected_skip:
  "(\<forall>m \<in> set pre. \<forall>e. f m \<noteq> Rejected e) \<Longrightarrow>
   rejected (map f pre @ ts) = rejected ts"
proof (induction pre)
  case Nil
  show ?case by simp
next
  case (Cons p pre)
  then have "\<forall>e. f p \<noteq> Rejected e" by simp
  with Cons show ?case by (cases "f p") simp_all
qed

lemma first_rejection_mem:
  "first_rejection ts = Some e \<Longrightarrow> Rejected e \<in> set ts \<or> Failing e \<in> set ts"
  using rejected_mem [of e ts] failing_mem [of e ts]
  by (auto simp: first_rejection_def split: list.splits)

lemma first_rejection_hd:
  "rejected ts \<noteq> [] \<Longrightarrow> first_rejection ts = Some (hd (rejected ts))"
  by (cases "rejected ts") (simp_all add: first_rejection_def)

lemma first_rejection_Rejected:
  "(\<forall>m \<in> set pre. \<forall>e. f m \<noteq> Rejected e) \<Longrightarrow> f n = Rejected e \<Longrightarrow>
   first_rejection (map f (pre @ n # post)) = Some e"
  using rejected_skip [of pre f "f n # map f post"]
  by (simp add: first_rejection_def)

lemma first_rejection_Cons_None:
  "first_rejection (t # ts) = None \<longleftrightarrow>
     (\<forall>e. t \<noteq> Rejected e \<and> t \<noteq> Failing e) \<and> first_rejection ts = None"
  by (cases t) (auto simp: first_rejection_def split: list.splits)

lemma first_rejection_map_None:
  "first_rejection (map f ns) = None \<longleftrightarrow> (\<forall>n \<in> set ns. \<forall>e. f n \<noteq> Rejected e \<and> f n \<noteq> Failing e)"
proof (induction ns)
  case Nil
  show ?case by (simp add: first_rejection_def)
next
  case (Cons n ns)
  then show ?case by (simp add: first_rejection_Cons_None)
qed

lemma find_split:
  "List.find P xs = Some x \<Longrightarrow>
   \<exists>post. xs = takeWhile (\<lambda>y. \<not> P y) xs @ x # post \<and> P x"
proof (induction xs)
  case Nil
  then show ?case by simp
next
  case (Cons y ys)
  then show ?case by (cases "P y") auto
qed

lemma find_split_takeWhile:
  assumes "List.find P xs = Some x"
  obtains pre post where "xs = pre @ x # post" and "pre = takeWhile (\<lambda>y. \<not> P y) xs" and "P x"
  using find_split [OF assms] by blast

subsection \<open>The mapping of results\<close>

lemma collect_Executing:
  "(\<forall>n \<in> set ns. f n = Executing n (g n)) \<Longrightarrow>
   collect (map f ns) result = (\<lambda>x. if x \<in> set ns then Some (g x) else result x)"
proof (induction ns arbitrary: result)
  case Nil
  show ?case by simp
next
  case (Cons n ns)
  then have "collect (map f (n # ns)) result = collect (map f ns) (result(n \<mapsto> g n))"
    by simp
  also have "\<dots> = (\<lambda>x. if x \<in> set ns then Some (g x) else (result(n \<mapsto> g n)) x)"
    using Cons.prems by (intro Cons.IH) simp
  finally show ?case by (auto simp: fun_eq_iff)
qed


text \<open>
  Why \<open>collect\<close> may store the results in the order of dispatch: when the tasks all
  wait for a result and the result of a name does not depend on its position, every
  order of arrival builds the same mapping.
\<close>

lemma collect_arrival_order:
  "(\<forall>n \<in> set ns. f n = Executing n (g n)) \<Longrightarrow> set ns' = set ns \<Longrightarrow>
   collect (map f ns') result = collect (map f ns) result"
  using collect_Executing [of ns f g result] collect_Executing [of ns' f g result]
  by simp

subsection \<open>Streams and their interleaving\<close>






subsection \<open>The end of the tasks\<close>

lemma await_task_Inl:
  "fst (await_task cb t result w) = Inl e \<Longrightarrow> t = Rejected e \<or> t = Failing e"
  by (cases t) auto

lemma fst_await_task:
  "fst (await_task cb t result w) =
     (case first_rejection [t] of Some e \<Rightarrow> Inl e | None \<Rightarrow> Inr (collect [t] result))"
  by (cases t) (simp_all add: first_rejection_def)

lemma fst_await_all:
  "fst (await_all schedule cb ts result w) =
     (case first_rejection ts of Some e \<Rightarrow> Inl e | None \<Rightarrow> Inr (collect ts result))"
  by (simp add: await_all_def Let_def split: option.splits)

lemma heap_await_task: "heap (snd (await_task cb t result w)) = heap w"
  by (cases t) (simp_all add: heap_emit)

lemma heap_await_all: "heap (snd (await_all schedule cb ts result w)) = heap w"
  by (simp add: await_all_def Let_def heap_emit split: option.splits)

lemma dispatched_await_task:
  "dispatched (trace (snd (await_task cb t result w))) = dispatched (trace w)"
  by (cases t) (simp_all add: trace_emit dispatched_append dispatched_Callbacks0)

lemma dispatched_await_all:
  "dispatched (trace (snd (await_all schedule cb ts result w))) = dispatched (trace w)"
  by (simp add: await_all_def Let_def trace_emit dispatched_append dispatched_Callbacks
           split: option.splits)



subsection \<open>A run\<close>

lemma execute_single:
  "\<not> multipleAgents ps \<Longrightarrow>
   execute cap schedule net prompt ps w =
     (case executeAgent cap net prompt (stream ps) (hd (inferred cap net prompt False))
             (emit [Call (GenerateText (inference_call net prompt False))] w) of
        (t, w2) \<Rightarrow> await_task (streamCallback ps) t Map.empty w2)"
  using inferred_not_Nil [of cap net prompt False]
  by (simp add: execute_def inferAgents_eq hd_conv_nth)

lemma execute_multiple:
  "multipleAgents ps \<Longrightarrow>
   execute cap schedule net prompt ps w =
     (case dispatch_all cap net prompt (stream ps) (inferred cap net prompt True)
             (emit [Call (GenerateText (inference_call net prompt True))] w) of
        (ts, w2) \<Rightarrow> await_all schedule (streamCallback ps) ts Map.empty w2)"
  using inferred_not_Nil [of cap net prompt True]
  by (simp add: execute_def inferAgents_eq)

lemma execute_never_NoApplicableAgents:
  "fst (execute cap schedule net prompt ps w) \<noteq> Inl NoApplicableAgents"
proof (cases "multipleAgents ps")
  case False
  let ?w1 = "emit [Call (GenerateText (inference_call net prompt False))] w"
  let ?n = "hd (inferred cap net prompt False)"
  obtain t w2 where e: "executeAgent cap net prompt (stream ps) ?n ?w1 = (t, w2)"
    by (cases "executeAgent cap net prompt (stream ps) ?n ?w1")
  show ?thesis
  proof
    assume "fst (execute cap schedule net prompt ps w) = Inl NoApplicableAgents"
    with False e have "fst (await_task (streamCallback ps) t Map.empty w2) = Inl NoApplicableAgents"
      by (simp add: execute_single)
    then have "t = Rejected NoApplicableAgents \<or> t = Failing NoApplicableAgents"
      by (rule await_task_Inl)
    with e task_error_executeAgent [of cap net prompt "stream ps" ?n ?w1 NoApplicableAgents]
    show False by simp
  qed
next
  case True
  let ?w1 = "emit [Call (GenerateText (inference_call net prompt True))] w"
  let ?ns = "inferred cap net prompt True"
  obtain ts w2 where d: "dispatch_all cap net prompt (stream ps) ?ns ?w1 = (ts, w2)"
    by (cases "dispatch_all cap net prompt (stream ps) ?ns ?w1")
  have ts: "ts = map (\<lambda>n. fst (executeAgent cap net prompt (stream ps) n ?w1)) ?ns"
    using tasks_dispatch_all [of cap net prompt "stream ps" ?ns ?w1] d by simp
  show ?thesis
  proof
    assume "fst (execute cap schedule net prompt ps w) = Inl NoApplicableAgents"
    with True d have "first_rejection ts = Some NoApplicableAgents"
      by (simp add: execute_multiple fst_await_all split: option.splits)
    then have "Rejected NoApplicableAgents \<in> set ts \<or> Failing NoApplicableAgents \<in> set ts"
      by (rule first_rejection_mem)
    then have "\<exists>n. fst (executeAgent cap net prompt (stream ps) n ?w1) = Rejected NoApplicableAgents
       \<or> fst (executeAgent cap net prompt (stream ps) n ?w1) = Failing NoApplicableAgents"
      unfolding ts set_map image_iff by metis
    then show False
      using task_error_executeAgent by blast
  qed
qed

lemma heap_execute:
  "heap (snd (execute cap schedule net prompt ps w)) r =
     (if \<exists>n \<in> set (targets cap net prompt ps). map_of (agents net) n = Some r
      then merged net prompt (heap w r) else heap w r)"
proof (cases "multipleAgents ps")
  case False
  let ?w1 = "emit [Call (GenerateText (inference_call net prompt False))] w"
  let ?n = "hd (inferred cap net prompt False)"
  have "heap (snd (execute cap schedule net prompt ps w)) =
        heap (snd (executeAgent cap net prompt (stream ps) ?n ?w1))"
    using False by (simp add: execute_single split_beta heap_await_task)
  then show ?thesis
    using False
    by (auto simp: heap_executeAgent heap_emit targets_def split: option.splits)
next
  case True
  let ?w1 = "emit [Call (GenerateText (inference_call net prompt True))] w"
  have "heap (snd (execute cap schedule net prompt ps w)) =
        heap (snd (dispatch_all cap net prompt (stream ps) (inferred cap net prompt True) ?w1))"
    using True by (simp add: execute_multiple split_beta heap_await_all)
  then show ?thesis
    using True by (simp add: heap_dispatch_all heap_emit targets_def)
qed

lemma heap_execute_target:
  assumes "n \<in> set (targets cap net prompt ps)" and "map_of (agents net) n = Some r"
  shows "heap (snd (execute cap schedule net prompt ps w)) r = merged net prompt (heap w r)"
  using assms by (auto simp: heap_execute)

lemma dispatched_execute:
  "dispatched (trace (snd (execute cap schedule net prompt ps w))) =
     dispatched (trace w) @ targets cap net prompt ps"
proof (cases "multipleAgents ps")
  case False
  then show ?thesis
    by (simp add: execute_single split_beta dispatched_await_task dispatched_executeAgent
                  trace_emit dispatched_append targets_def)
next
  case True
  then show ?thesis
    by (simp add: execute_multiple split_beta dispatched_await_all dispatched_dispatch_all
                  trace_emit dispatched_append targets_def)
qed



lemma tasks_single:
  "\<not> multipleAgents ps \<Longrightarrow>
   tasks cap net prompt ps w =
     [fst (executeAgent cap net prompt (stream ps) (hd (inferred cap net prompt False)) w)]"
  by (simp add: tasks_def targets_def)

lemma tasks_multiple:
  "multipleAgents ps \<Longrightarrow>
   tasks cap net prompt ps w =
     fst (dispatch_all cap net prompt (stream ps) (inferred cap net prompt True) w)"
  by (simp add: tasks_def targets_def tasks_dispatch_all)

lemma fst_execute:
  "fst (execute cap schedule net prompt ps w) =
     (case first_rejection (tasks cap net prompt ps w) of
        Some e \<Rightarrow> Inl e
      | None \<Rightarrow> Inr (collect (tasks cap net prompt ps w) Map.empty))"
proof (cases "multipleAgents ps")
  case False
  then show ?thesis
    by (simp add: execute_single split_beta fst_await_task tasks_single task_emit
             cong: option.case_cong)
next
  case True
  let ?w1 = "emit [Call (GenerateText (inference_call net prompt True))] w"
  have "tasks cap net prompt ps ?w1 = tasks cap net prompt ps w"
    by (simp add: tasks_def task_emit)
  with True show ?thesis
    by (simp add: execute_multiple split_beta fst_await_all tasks_multiple [symmetric]
             cong: option.case_cong)
qed

lemma fst_execute_schedule:
  "fst (execute cap schedule net prompt ps w) = fst (execute cap schedule' net prompt ps w)"
  by (simp add: fst_execute)


lemma first_rejection_tasks_None:
  "first_rejection (tasks cap net prompt ps w) = None \<longleftrightarrow>
     (\<forall>n \<in> set (targets cap net prompt ps). runnable net prompt (heap w) n)"
  unfolding tasks_def first_rejection_map_None
  using task_settles_iff [of cap net prompt "stream ps" _ w] by blast

lemma execute_Inr_iff:
  "(\<exists>m. fst (execute cap schedule net prompt ps w) = Inr m) \<longleftrightarrow>
     (\<forall>n \<in> set (targets cap net prompt ps). runnable net prompt (heap w) n)"
  using first_rejection_tasks_None [of cap net prompt ps w]
  by (auto simp: fst_execute split: option.splits)


lemma nonstream_result:
  assumes "\<not> stream ps" and "fst (execute cap schedule net prompt ps w) = Inr m"
  shows "dom m = set (targets cap net prompt ps)"
    and "n \<in> set (targets cap net prompt ps) \<Longrightarrow> map_of (agents net) n = Some r \<Longrightarrow>
         m n = Some (generation cap (kind (heap w r)) (parameters (merged net prompt (heap w r))))"
proof -
  let ?ns = "targets cap net prompt ps"
  let ?f = "\<lambda>n. fst (executeAgent cap net prompt (stream ps) n w)"
  let ?g = "\<lambda>n. case map_of (agents net) n of
                   None \<Rightarrow> TextResult []
                 | Some r \<Rightarrow> generation cap (kind (heap w r))
                              (parameters (merged net prompt (heap w r)))"
  have none: "first_rejection (tasks cap net prompt ps w) = None"
    and m: "m = collect (tasks cap net prompt ps w) Map.empty"
    using assms(2) by (auto simp: fst_execute split: option.splits)
  have run: "\<forall>n \<in> set ?ns. runnable net prompt (heap w) n"
    using none by (simp add: first_rejection_tasks_None)
  have "\<forall>n \<in> set ?ns. ?f n = Executing n (?g n)"
  proof
    fix n assume "n \<in> set ?ns"
    with run obtain r where "map_of (agents net) n = Some r" "passes (merged net prompt (heap w r))"
      by (auto simp: runnable_def split: option.splits)
    then show "?f n = Executing n (?g n)"
      using assms(1) by (simp add: task_runnable)
  qed
  then have "collect (map ?f ?ns) Map.empty = (\<lambda>x. if x \<in> set ?ns then Some (?g x) else None)"
    by (rule collect_Executing)
  then have eq: "m = (\<lambda>x. if x \<in> set ?ns then Some (?g x) else None)"
    by (simp add: m tasks_def)
  show "dom m = set ?ns"
    by (auto simp: eq dom_def)
  show "n \<in> set ?ns \<Longrightarrow> map_of (agents net) n = Some r \<Longrightarrow>
        m n = Some (generation cap (kind (heap w r)) (parameters (merged net prompt (heap w r))))"
    by (simp add: eq)
qed

subsection \<open>The calls of a run\<close>

lemma calls_of_Calls: "calls_of (map Call cs) = cs"
  by (induction cs) auto

lemma calls_of_Callbacks: "calls_of (map (\<lambda>(i, f). Callback i f) xs) = []"
  by (induction xs) auto

lemma calls_of_Callbacks0: "calls_of (map (Callback i) fs) = []"
  by (induction fs) auto

lemma calls_of_executeAgent:
  "calls_of (trace (snd (executeAgent cap net prompt streamed n w))) =
     calls_of (trace w) @ agent_calls net prompt streamed (heap w) n"
proof (cases "map_of (agents net) n")
  case None
  then show ?thesis
    by (simp add: executeAgent_None trace_emit calls_of_append agent_calls_def)
next
  case (Some r)
  then show ?thesis
    by (simp add: executeAgent_Some Let_def calls_of_append agent_calls_def)
qed

lemma agent_calls_cong:
  "(\<And>r. merged net prompt (h r) = merged net prompt (h' r)) \<Longrightarrow>
   agent_calls net prompt streamed h n = agent_calls net prompt streamed h' n"
  by (simp add: agent_calls_def split: option.splits)

lemma calls_of_dispatch_all:
  "calls_of (trace (snd (dispatch_all cap net prompt streamed ns w))) =
     calls_of (trace w) @ concat (map (agent_calls net prompt streamed (heap w)) ns)"
proof (induction ns arbitrary: w)
  case Nil
  show ?case by simp
next
  case (Cons n ns)
  obtain t w1 where e: "executeAgent cap net prompt streamed n w = (t, w1)"
    by (cases "executeAgent cap net prompt streamed n w")
  have same: "\<And>r. merged net prompt (heap w1 r) = merged net prompt (heap w r)"
    using merged_heap_executeAgent [of net prompt cap streamed n w] e by simp
  have c1: "calls_of (trace w1) = calls_of (trace w) @ agent_calls net prompt streamed (heap w) n"
    using calls_of_executeAgent [of cap net prompt streamed n w] e by simp
  have "map (agent_calls net prompt streamed (heap w1)) ns =
        map (agent_calls net prompt streamed (heap w)) ns"
    using agent_calls_cong [OF same] by simp
  with Cons.IH [of w1] e c1 show ?case
    by (simp add: split_beta)
qed

lemma calls_of_await_task:
  "calls_of (trace (snd (await_task cb t result w))) = calls_of (trace w)"
  by (cases t) (simp_all add: trace_emit calls_of_append calls_of_Callbacks0)

lemma calls_of_await_all:
  "calls_of (trace (snd (await_all schedule cb ts result w))) = calls_of (trace w)"
  by (simp add: await_all_def Let_def trace_emit calls_of_append calls_of_Callbacks
           split: option.splits)

lemma agent_calls_emit:
  "agent_calls net prompt streamed (heap (emit es w)) n = agent_calls net prompt streamed (heap w) n"
  by (simp add: heap_emit)

lemma calls_of_execute:
  "calls_of (trace (snd (execute cap schedule net prompt ps w))) =
     calls_of (trace w) @ GenerateText (inference_call net prompt (multipleAgents ps)) #
     concat (map (agent_calls net prompt (stream ps) (heap w)) (targets cap net prompt ps))"
proof (cases "multipleAgents ps")
  case False
  then show ?thesis
    by (simp add: execute_single split_beta calls_of_await_task calls_of_executeAgent
                  trace_emit calls_of_append heap_emit targets_def)
next
  case True
  then show ?thesis
    by (simp add: execute_multiple split_beta calls_of_await_all calls_of_dispatch_all
                  trace_emit calls_of_append heap_emit targets_def)
qed

lemma agent_calls_final:
  assumes "n \<in> set (targets cap net prompt ps)"
  shows "agent_calls net prompt (stream ps) (heap w) n =
     (case map_of (agents net) n of
        None \<Rightarrow> []
      | Some r \<Rightarrow>
          if passes (heap (snd (execute cap schedule net prompt ps w)) r)
          then [(if stream ps then streaming_call else generation_call)
                  (kind (heap (snd (execute cap schedule net prompt ps w)) r))
                  (parameters (heap (snd (execute cap schedule net prompt ps w)) r))]
          else [])"
proof (cases "map_of (agents net) n")
  case None
  then show ?thesis by (simp add: agent_calls_def)
next
  case (Some r)
  with assms have "heap (snd (execute cap schedule net prompt ps w)) r = merged net prompt (heap w r)"
    by (rule heap_execute_target)
  with Some show ?thesis
    by (simp add: agent_calls_def Let_def)
qed

subsection \<open>The arguments of the callback\<close>



















subsection \<open>The example values\<close>

lemma agents_office: "agents office = [(''a'', 0), (''b'', 1)]"
  by (simp add: office_def registerAgent_def Network_def)

lemma defaultModel_office: "defaultModel office = JObj ''M2''"
  by (simp add: office_def registerAgent_def Network_def)

lemma agents_bare: "agents bare = [(''c'', 2)]"
  by (simp add: bare_def registerAgent_def Network_def)

lemma heap_start: "heap start = studio"
  by (simp add: start_def)

lemma trace_start: "trace start = []"
  by (simp add: start_def)

lemma inferred_scripted: "inferred (scripted s) net prompt multiple = parse_names s"
  by (simp add: inferred_def scripted_def inference_call_def)

lemma parse_a_b: "parse_names ''a, b'' = [''a'', ''b'']"
  by (simp add: parse_names_def trim_def white_space_def strip.simps)

lemma parse_no_break_space:
  "parse_names ([CHR 0xC2, CHR 0xA0] @ ''a'' @ [CHR 0xE2, CHR 0x80, CHR 0xA8]) = [''a'']"
  by (simp add: parse_names_def trim_def white_space_def strip.simps)

lemma parse_a_ghost: "parse_names ''a,ghost'' = [''a'', ''ghost'']"
  by (simp add: parse_names_def trim_def white_space_def strip.simps)

lemma parse_c_ghost: "parse_names ''c,ghost'' = [''c'', ''ghost'']"
  by (simp add: parse_names_def trim_def white_space_def strip.simps)

lemma targets_a_b: "targets (scripted ''a, b'') net prompt ps = (if multipleAgents ps then [''a'', ''b''] else [''a''])"
  by (simp add: targets_def inferred_scripted parse_a_b)

lemma passes_studio_0: "passes (merged office ''hi'' (studio 0))"
  by (simp add: passes_def merged_def setParameters_def studio_def param_def js_or_def)

lemma passes_studio_1: "passes (merged office ''hi'' (studio 1))"
  by (simp add: passes_def merged_def setParameters_def studio_def param_def js_or_def
                defaultModel_office)

lemma fails_studio_2: "\<not> passes (merged bare ''hi'' (studio 2))"
  by (simp add: passes_def merged_def setParameters_def studio_def param_def js_or_def
                bare_def registerAgent_def Network_def)

lemma runnable_office:
  "runnable office ''hi'' studio ''a''" "runnable office ''hi'' studio ''b''"
  using passes_studio_0 passes_studio_1 by (simp_all add: runnable_def agents_office)

lemma agents_annex: "agents annex = [(''d'', 0)]"
  by (simp add: annex_def registerAgent_def Network_def)

lemma defaultModel_annex: "defaultModel annex = JObj ''M2''"
  by (simp add: annex_def registerAgent_def Network_def)

lemma parse_d: "parse_names ''d'' = [''d'']"
  by (simp add: parse_names_def trim_def white_space_def strip.simps)

lemma parameters_studio_0:
  "parameters (merged office ''hi'' (studio 0))
     = [''system'' \<mapsto> JStr ''You are a writer.'', ''model'' \<mapsto> JObj ''M1'',
        ''prompt'' \<mapsto> JStr ''hi'']"
  by (auto simp: fun_eq_iff parameters_merged studio_def js_or_def param_def)

lemma parameters_studio_1:
  "parameters (merged office ''hi'' (studio 1))
     = [''system'' \<mapsto> JStr ''You are a form builder agent.'', ''schema'' \<mapsto> JObj ''z.object'',
        ''prompt'' \<mapsto> JStr ''hi'', ''model'' \<mapsto> JObj ''M2'']"
  by (auto simp: fun_eq_iff parameters_merged studio_def js_or_def param_def defaultModel_office)



section \<open>The claims\<close>

text \<open>
  C1 (the code at the input the claim names). The inference call returns the text
  \<open>""\<close>: the run does not raise \<open>NoApplicableAgents\<close>. The text parses to the one name
  \<open>""\<close>, which is dispatched, and the run raises \<open>AgentNotRegistered\<close> for it.
\<close>

theorem empty_text_dispatches_empty_name:
  "fst (execute (scripted '''') [] (registerAgent ''a'' 0 (Network (JObj ''M2''))) ''hi''
          default_params \<lparr>heap = blank, trace = []\<rparr>) = Inl (AgentNotRegistered '''')
   \<and> dispatched (trace (snd (execute (scripted '''') [] (registerAgent ''a'' 0 (Network (JObj ''M2''))) ''hi''
          default_params \<lparr>heap = blank, trace = []\<rparr>))) = ['''']"
  by (simp add: execute_def inferAgents_def parse_names_empty scripted_def
                inference_call_def executeAgent_def emit_def default_params_def
                registerAgent_def Network_def Let_def)

theorem empty_text_dispatches_empty_name_witness:
  "fst (execute (scripted '''') [] (registerAgent ''a'' 0 (Network (JObj ''M2''))) ''hi''
          default_params \<lparr>heap = blank, trace = []\<rparr>) \<noteq> Inl NoApplicableAgents"
  using empty_text_dispatches_empty_name by simp

text \<open>
  C2 as stated fails: a text agent whose parameters contain \<open>prompt\<close> and \<open>model\<close>, the
  prompt being the empty string, raises \<open>MissingParameter\<close>.
\<close>

theorem complete_keys_counterexample:
  "[''prompt'' \<mapsto> JStr '''', ''model'' \<mapsto> JObj ''M1''] ''prompt'' \<noteq> None
   \<and> [''prompt'' \<mapsto> JStr '''', ''model'' \<mapsto> JObj ''M1''] ''model'' \<noteq> None
   \<and> fst (agent_execute (scripted ''a'')
       \<lparr>kind = TextAgent, parameters = [''prompt'' \<mapsto> JStr '''', ''model'' \<mapsto> JObj ''M1'']\<rparr>)
     = Inl (MissingParameter TextAgent)"
  by (simp add: agent_execute_def TextAgent_execute_def param_def)

text \<open>
  C2, amended. When every required key (\<open>prompt\<close> and \<open>model\<close>; also \<open>schema\<close> for an
  object agent) holds a truthy value, \<open>execute\<close> returns the result of the one call it
  makes to the capability; otherwise (a required key absent or falsy) it raises
  \<open>MissingParameter\<close> and makes no call.
\<close>

theorem execute_iff_truthy_parameters:
  "(if \<forall>k \<in> set (required (kind a)). truthy (param (parameters a) k)
    then agent_execute cap a =
           (Inr (generation cap (kind a) (parameters a)), [generation_call (kind a) (parameters a)])
    else agent_execute cap a = (Inl (MissingParameter (kind a)), []))"
  using agent_execute_eq [of cap a] by (simp add: passes_def)

theorem execute_iff_truthy_parameters_witness:
  "agent_execute (scripted ''a'')
     \<lparr>kind = TextAgent, parameters = [''prompt'' \<mapsto> JStr ''hi'', ''model'' \<mapsto> JObj ''M1'']\<rparr>
     = (Inr (TextResult ''Hello, world''),
        [GenerateText [''prompt'' \<mapsto> JStr ''hi'', ''model'' \<mapsto> JObj ''M1'']])
   \<and> agent_execute (scripted ''a'')
     \<lparr>kind = ObjectAgent, parameters = [''prompt'' \<mapsto> JStr ''hi'', ''model'' \<mapsto> JObj ''M1'']\<rparr>
     = (Inl (MissingParameter ObjectAgent), [])"
  using execute_iff_truthy_parameters
      [of "\<lparr>kind = TextAgent, parameters = [''prompt'' \<mapsto> JStr ''hi'', ''model'' \<mapsto> JObj ''M1'']\<rparr>" "scripted ''a''"]
    execute_iff_truthy_parameters
      [of "\<lparr>kind = ObjectAgent, parameters = [''prompt'' \<mapsto> JStr ''hi'', ''model'' \<mapsto> JObj ''M1'']\<rparr>" "scripted ''a''"]
  by (simp add: param_def scripted_def)

text \<open>
  C3 as stated fails: without \<open>multipleAgents\<close>, an inferred name after the first that
  is not registered raises nothing; the run returns the mapping of the first agent.
\<close>

theorem unregistered_second_name_counterexample:
  "inferred (scripted ''a,ghost'') office ''hi'' False = [''a'', ''ghost'']
   \<and> map_of (agents office) ''ghost'' = None
   \<and> fst (execute (scripted ''a,ghost'') [] office ''hi'' default_params start)
       = Inr [''a'' \<mapsto> TextResult ''Hello, world'']"
proof -
  let ?cap = "scripted ''a,ghost''"
  have n: "inferred ?cap office ''hi'' False = [''a'', ''ghost'']"
    by (simp add: inferred_scripted parse_a_ghost)
  have g: "map_of (agents office) ''ghost'' = None"
    by (simp add: agents_office)
  have a: "map_of (agents office) ''a'' = Some 0"
    by (simp add: agents_office)
  have "fst (executeAgent ?cap office ''hi'' False ''a'' start) =
          Executing ''a'' (generation ?cap (kind (heap start 0))
                            (parameters (merged office ''hi'' (heap start 0))))"
    using task_runnable [OF a, of "''hi''" start ?cap False] passes_studio_0
    by (simp add: heap_start)
  then have t: "fst (executeAgent ?cap office ''hi'' False ''a'' start) =
          Executing ''a'' (TextResult ''Hello, world'')"
    by (simp add: heap_start studio_def scripted_def parameters_merged)
  have "tasks ?cap office ''hi'' default_params start = [Executing ''a'' (TextResult ''Hello, world'')]"
    by (simp add: tasks_def targets_def default_params_def n t)
  then have "fst (execute ?cap [] office ''hi'' default_params start)
       = Inr [''a'' \<mapsto> TextResult ''Hello, world'']"
    by (simp add: fst_execute first_rejection_def)
  with n g show ?thesis
    by (intro conjI)
qed

text \<open>
  C3, amended. When some dispatched name has no registry entry, \<open>n\<close> being the first
  such, the run rejects as a whole: it returns no mapping. The error is
  \<open>AgentNotRegistered n\<close> in a run that does not stream, and in any run where the
  agents dispatched before \<open>n\<close> pass their checks; in a streaming run where one of
  them fails its check, the error is the \<open>MissingParameter\<close> of the first agent
  dispatched before \<open>n\<close> that fails.
\<close>

theorem unregistered_target_rejects:
  assumes "List.find (\<lambda>n. map_of (agents net) n = None) (targets cap net prompt ps) = Some n"
  shows "(\<not> stream ps \<longrightarrow>
            fst (execute cap schedule net prompt ps w) = Inl (AgentNotRegistered n))
       \<and> ((\<forall>p \<in> set (takeWhile (\<lambda>n. \<not> map_of (agents net) n = None) (targets cap net prompt ps)).
              runnable net prompt (heap w) p) \<longrightarrow>
            fst (execute cap schedule net prompt ps w) = Inl (AgentNotRegistered n))
       \<and> (\<forall>q. stream ps
              \<and> List.find (\<lambda>p. \<not> runnable net prompt (heap w) p)
                   (takeWhile (\<lambda>n. \<not> map_of (agents net) n = None) (targets cap net prompt ps))
                 = Some q \<longrightarrow>
            (\<exists>r. map_of (agents net) q = Some r
               \<and> fst (execute cap schedule net prompt ps w)
                   = Inl (MissingParameter (kind (heap w r)))))"
proof -
  let ?ns = "targets cap net prompt ps"
  let ?f = "\<lambda>n. fst (executeAgent cap net prompt (stream ps) n w)"
  obtain pre post where ns: "?ns = pre @ n # post"
    and pre_eq: "pre = takeWhile (\<lambda>n. \<not> map_of (agents net) n = None) ?ns"
    and n: "map_of (agents net) n = None"
    using assms by (rule find_split_takeWhile)
  have fn: "?f n = Rejected (AgentNotRegistered n)"
    using n by (rule task_unregistered)
  have pre: "\<exists>r. map_of (agents net) p = Some r" if "p \<in> set pre" for p
    using set_takeWhileD [OF that [unfolded pre_eq]] by auto
  have res: "fst (execute cap schedule net prompt ps w) = Inl e"
    if "first_rejection (map ?f ?ns) = Some e" for e
    using that by (simp add: fst_execute tasks_def)
  have clean: "fst (execute cap schedule net prompt ps w) = Inl (AgentNotRegistered n)"
    if "\<forall>p \<in> set pre. \<forall>e. ?f p \<noteq> Rejected e"
  proof (rule res)
    show "first_rejection (map ?f ?ns) = Some (AgentNotRegistered n)"
      unfolding ns by (rule first_rejection_Rejected [OF that fn])
  qed
  have 1: "fst (execute cap schedule net prompt ps w) = Inl (AgentNotRegistered n)"
    if "\<not> stream ps"
  proof (rule clean, intro ballI allI notI)
    fix p e assume "p \<in> set pre" and e: "?f p = Rejected e"
    then obtain r where "map_of (agents net) p = Some r"
      using pre by blast
    from task_registered_Rejected [OF this e] that show False by simp
  qed
  have 2: "fst (execute cap schedule net prompt ps w) = Inl (AgentNotRegistered n)"
    if run: "\<forall>p \<in> set pre. runnable net prompt (heap w) p"
  proof (rule clean, intro ballI allI)
    fix p e assume "p \<in> set pre"
    with run have "runnable net prompt (heap w) p" by simp
    then show "?f p \<noteq> Rejected e"
      using task_settles_iff [of cap net prompt "stream ps" p w] by simp
  qed
  have 3: "\<exists>r. map_of (agents net) q = Some r
               \<and> fst (execute cap schedule net prompt ps w)
                   = Inl (MissingParameter (kind (heap w r)))"
    if s: "stream ps"
      and q: "List.find (\<lambda>p. \<not> runnable net prompt (heap w) p) pre = Some q"
    for q
  proof -
    obtain good rest where split: "pre = good @ q # rest"
      and good_eq: "good = takeWhile (\<lambda>p. \<not> \<not> runnable net prompt (heap w) p) pre"
      and bad: "\<not> runnable net prompt (heap w) q"
      using q by (rule find_split_takeWhile)
    have "q \<in> set pre"
      by (simp add: split)
    then obtain r where r: "map_of (agents net) q = Some r"
      using pre by blast
    with bad have "\<not> passes (merged net prompt (heap w r))"
      by (simp add: runnable_def)
    with r s have fq: "?f q = Rejected (MissingParameter (kind (heap w r)))"
      by (simp add: task_failing)
    have ok: "\<forall>p \<in> set good. \<forall>e. ?f p \<noteq> Rejected e"
    proof (intro ballI allI)
      fix p e assume "p \<in> set good"
      then have "runnable net prompt (heap w) p"
        using set_takeWhileD [of p "\<lambda>p. \<not> \<not> runnable net prompt (heap w) p" pre]
        by (simp add: good_eq)
      then show "?f p \<noteq> Rejected e"
        using task_settles_iff [of cap net prompt "stream ps" p w] by simp
    qed
    have "?ns = good @ q # (rest @ n # post)"
      by (simp add: ns split)
    then have "first_rejection (map ?f ?ns) = Some (MissingParameter (kind (heap w r)))"
      using first_rejection_Rejected [OF ok fq, of "rest @ n # post"] by simp
    then have "fst (execute cap schedule net prompt ps w)
                 = Inl (MissingParameter (kind (heap w r)))"
      by (rule res)
    with r show ?thesis by blast
  qed
  show ?thesis
    using 1 2 3 unfolding pre_eq by blast
qed

theorem unregistered_target_rejects_witness:
  "fst (execute (scripted ''a,ghost'') [] office ''hi'' both start)
     = Inl (AgentNotRegistered ''ghost'')
   \<and> fst (execute (scripted ''a,ghost'') [1, 0] office ''hi'' live start)
     = Inl (AgentNotRegistered ''ghost'')
   \<and> fst (execute (scripted ''c,ghost'') [] bare ''hi'' live start)
     = Inl (MissingParameter TextAgent)"
proof -
  let ?cap = "scripted ''a,ghost''"
  have two: "\<not> stream both" "multipleAgents both" "multipleAgents live" "stream live"
    by (simp_all add: both_def live_def)
  have ts: "targets ?cap office ''hi'' both = [''a'', ''ghost'']"
           "targets ?cap office ''hi'' live = [''a'', ''ghost'']"
    using two by (simp_all add: targets_def inferred_scripted parse_a_ghost)
  have f: "List.find (\<lambda>n. map_of (agents office) n = None) (targets ?cap office ''hi'' both)
             = Some ''ghost''"
          "List.find (\<lambda>n. map_of (agents office) n = None) (targets ?cap office ''hi'' live)
             = Some ''ghost''"
    by (simp_all add: ts agents_office)
  note B = unregistered_target_rejects [OF f(1), of "[]" start]
  note L = unregistered_target_rejects [OF f(2), of "[1, 0]" start]
  have 1: "fst (execute ?cap [] office ''hi'' both start) = Inl (AgentNotRegistered ''ghost'')"
    using B two(1) by blast
  have "\<forall>p \<in> set (takeWhile (\<lambda>n. \<not> map_of (agents office) n = None)
                      (targets ?cap office ''hi'' live)). runnable office ''hi'' (heap start) p"
    by (simp add: ts agents_office heap_start runnable_office)
  with L have 2: "fst (execute ?cap [1, 0] office ''hi'' live start) = Inl (AgentNotRegistered ''ghost'')"
    by blast
  let ?cap' = "scripted ''c,ghost''"
  have tc: "targets ?cap' bare ''hi'' live = [''c'', ''ghost'']"
    using two by (simp add: targets_def inferred_scripted parse_c_ghost)
  have fc: "List.find (\<lambda>n. map_of (agents bare) n = None) (targets ?cap' bare ''hi'' live)
             = Some ''ghost''"
    by (simp add: tc agents_bare)
  have bad: "\<not> runnable bare ''hi'' (heap start) ''c''"
    using fails_studio_2 by (simp add: runnable_def agents_bare heap_start)
  have fb: "List.find (\<lambda>p. \<not> runnable bare ''hi'' (heap start) p)
              (takeWhile (\<lambda>n. \<not> map_of (agents bare) n = None) (targets ?cap' bare ''hi'' live))
            = Some ''c''"
    using bad by (simp add: tc agents_bare)
  note C = unregistered_target_rejects [OF fc, of "[]" start, THEN conjunct2, THEN conjunct2,
             rule_format, OF conjI, OF two(4) fb]
  then obtain r where "map_of (agents bare) ''c'' = Some r"
    and e: "fst (execute ?cap' [] bare ''hi'' live start) = Inl (MissingParameter (kind (heap start r)))"
    by blast
  then have "r = 2"
    by (simp add: agents_bare)
  with e have 3: "fst (execute ?cap' [] bare ''hi'' live start) = Inl (MissingParameter TextAgent)"
    by (simp add: heap_start studio_def)
  from 1 2 3 show ?thesis
    by (intro conjI)
qed

text \<open>
  C4. After a run of \<open>execute\<close>, every dispatched registered agent holds under
  \<open>model\<close> its own model when it had one (a truthy value under \<open>model\<close>), whatever
  the default of the network, and the default of the network otherwise: when it had
  no \<open>model\<close> key, and when the key held \<open>undefined\<close> or another falsy value. The calls
  the run makes to the capability are the inference call and then, for each
  dispatched agent that passes its check, one call with exactly the parameters the
  agent then holds.
\<close>

theorem agent_model_wins_over_default:
  assumes "execute cap schedule net prompt ps w = (res, w')"
      and "n \<in> set (targets cap net prompt ps)"
      and "map_of (agents net) n = Some r"
  shows "parameters (heap w' r) ''model'' =
           Some (if truthy (param (parameters (heap w r)) ''model'')
                 then param (parameters (heap w r)) ''model'' else defaultModel net)
       \<and> (\<forall>m. parameters (heap w r) ''model'' = Some m \<and> truthy m
            \<longrightarrow> parameters (heap w' r) ''model'' = Some m)
       \<and> (\<forall>m. parameters (heap w r) ''model'' = Some m \<and> \<not> truthy m
            \<longrightarrow> parameters (heap w' r) ''model'' = Some (defaultModel net))
       \<and> (parameters (heap w r) ''model'' = None
            \<longrightarrow> parameters (heap w' r) ''model'' = Some (defaultModel net))
       \<and> calls_of (trace w') =
           calls_of (trace w) @ GenerateText (inference_call net prompt (multipleAgents ps)) #
           concat (map (\<lambda>n. case map_of (agents net) n of
                               None \<Rightarrow> []
                             | Some r \<Rightarrow>
                                 if passes (heap w' r)
                                 then [(if stream ps then streaming_call else generation_call)
                                         (kind (heap w' r)) (parameters (heap w' r))]
                                 else [])
                        (targets cap net prompt ps))"
proof -
  have w': "w' = snd (execute cap schedule net prompt ps w)"
    using assms(1) by simp
  have h: "heap w' r = merged net prompt (heap w r)"
    unfolding w' using assms(2,3) by (rule heap_execute_target)
  have model: "parameters (heap w' r) ''model'' =
           Some (if truthy (param (parameters (heap w r)) ''model'')
                 then param (parameters (heap w r)) ''model'' else defaultModel net)"
    by (simp add: h parameters_merged js_or_def)
  have eq: "map (agent_calls net prompt (stream ps) (heap w)) (targets cap net prompt ps) =
        map (\<lambda>n. case map_of (agents net) n of
                   None \<Rightarrow> []
                 | Some r \<Rightarrow>
                     if passes (heap w' r)
                     then [(if stream ps then streaming_call else generation_call)
                             (kind (heap w' r)) (parameters (heap w' r))]
                     else [])
            (targets cap net prompt ps)"
    unfolding w' by (rule map_cong [OF refl]) (rule agent_calls_final)
  have "calls_of (trace w') =
           calls_of (trace w) @ GenerateText (inference_call net prompt (multipleAgents ps)) #
           concat (map (agent_calls net prompt (stream ps) (heap w)) (targets cap net prompt ps))"
    unfolding w' by (rule calls_of_execute)
  then have calls: "calls_of (trace w') =
           calls_of (trace w) @ GenerateText (inference_call net prompt (multipleAgents ps)) #
           concat (map (\<lambda>n. case map_of (agents net) n of
                               None \<Rightarrow> []
                             | Some r \<Rightarrow>
                                 if passes (heap w' r)
                                 then [(if stream ps then streaming_call else generation_call)
                                         (kind (heap w' r)) (parameters (heap w' r))]
                                 else [])
                        (targets cap net prompt ps))"
    by (simp only: eq)
  from model have "\<forall>m. parameters (heap w r) ''model'' = Some m \<and> truthy m
            \<longrightarrow> parameters (heap w' r) ''model'' = Some m"
    by (simp add: param_def)
  moreover from model have "\<forall>m. parameters (heap w r) ''model'' = Some m \<and> \<not> truthy m
            \<longrightarrow> parameters (heap w' r) ''model'' = Some (defaultModel net)"
    by (simp add: param_def)
  moreover from model have "parameters (heap w r) ''model'' = None
            \<longrightarrow> parameters (heap w' r) ''model'' = Some (defaultModel net)"
    by (simp add: param_def)
  ultimately show ?thesis
    using model calls by (intro conjI)
qed

theorem agent_model_wins_over_default_witness:
  "parameters (heap (snd (execute (scripted ''a, b'') [] office ''hi'' both start)) 0) ''model''
     = Some (JObj ''M1'')
   \<and> parameters (heap (snd (execute (scripted ''a, b'') [] office ''hi'' both start)) 1) ''model''
     = Some (JObj ''M2'')
   \<and> parameters (heap (snd (execute (scripted ''d'') [] annex ''hi'' default_params
                                \<lparr>heap = attic, trace = []\<rparr>)) 0) ''model''
     = Some (JObj ''M2'')
   \<and> calls_of (trace (snd (execute (scripted ''a, b'') [] office ''hi'' both start)))
     = [GenerateText (inference_call office ''hi'' True),
        GenerateText [''system'' \<mapsto> JStr ''You are a writer.'', ''model'' \<mapsto> JObj ''M1'',
                      ''prompt'' \<mapsto> JStr ''hi''],
        GenerateObject [''system'' \<mapsto> JStr ''You are a form builder agent.'',
                        ''schema'' \<mapsto> JObj ''z.object'', ''prompt'' \<mapsto> JStr ''hi'',
                        ''model'' \<mapsto> JObj ''M2'']]"
proof -
  let ?cap = "scripted ''a, b''"
  let ?w' = "snd (execute ?cap [] office ''hi'' both start)"
  let ?attic = "\<lparr>heap = attic, trace = []\<rparr>"
  let ?v' = "snd (execute (scripted ''d'') [] annex ''hi'' default_params ?attic)"
  have two: "multipleAgents both" "\<not> stream both"
    by (simp_all add: both_def)
  have ts: "targets ?cap office ''hi'' both = [''a'', ''b'']"
    by (simp add: targets_a_b both_def)
  have td: "targets (scripted ''d'') annex ''hi'' default_params = [''d'']"
    by (simp add: targets_def default_params_def inferred_scripted parse_d)
  have a: "''a'' \<in> set (targets ?cap office ''hi'' both)" "map_of (agents office) ''a'' = Some 0"
    and b: "''b'' \<in> set (targets ?cap office ''hi'' both)" "map_of (agents office) ''b'' = Some 1"
    by (simp_all add: ts agents_office)
  have d: "''d'' \<in> set (targets (scripted ''d'') annex ''hi'' default_params)"
          "map_of (agents annex) ''d'' = Some 0"
    by (simp_all add: td agents_annex)
  note A = agent_model_wins_over_default [OF surjective_pairing a]
  note B = agent_model_wins_over_default [OF surjective_pairing b]
  note D = agent_model_wins_over_default [OF surjective_pairing d]
  have "parameters (heap start 0) ''model'' = Some (JObj ''M1'') \<and> truthy (JObj ''M1'')"
    by (simp add: heap_start studio_def)
  then have 1: "parameters (heap ?w' 0) ''model'' = Some (JObj ''M1'')"
    by (rule A [THEN conjunct2, THEN conjunct1, rule_format])
  have "parameters (heap start 1) ''model'' = None"
    by (simp add: heap_start studio_def)
  then have "parameters (heap ?w' 1) ''model'' = Some (defaultModel office)"
    by (rule B [THEN conjunct2, THEN conjunct2, THEN conjunct2, THEN conjunct1, rule_format])
  then have 2: "parameters (heap ?w' 1) ''model'' = Some (JObj ''M2'')"
    by (simp only: defaultModel_office)
  have "parameters (heap ?attic 0) ''model'' = Some Undefined \<and> \<not> truthy Undefined"
    by (simp add: attic_def)
  then have "parameters (heap ?v' 0) ''model'' = Some (defaultModel annex)"
    by (rule D [THEN conjunct2, THEN conjunct2, THEN conjunct1, rule_format])
  then have 3: "parameters (heap ?v' 0) ''model'' = Some (JObj ''M2'')"
    by (simp only: defaultModel_annex)
  have h0: "heap ?w' 0 = merged office ''hi'' (studio 0)"
    using heap_execute_target [OF a, of "[]" start] by (simp only: heap_start)
  have h1: "heap ?w' 1 = merged office ''hi'' (studio 1)"
    using heap_execute_target [OF b, of "[]" start] by (simp only: heap_start)
  have h1': "heap ?w' (Suc 0) = merged office ''hi'' (studio (Suc 0))"
    using h1 by simp
  have k: "kind (studio 0) = TextAgent" "kind (studio (Suc 0)) = ObjectAgent"
    by (simp_all add: studio_def)
  note p1 = passes_studio_1 [unfolded One_nat_def] parameters_studio_1 [unfolded One_nat_def]
  have "calls_of (trace ?w') =
          calls_of (trace start) @ GenerateText (inference_call office ''hi'' (multipleAgents both)) #
          concat (map (\<lambda>n. case map_of (agents office) n of
                               None \<Rightarrow> []
                             | Some r \<Rightarrow>
                                 if passes (heap ?w' r)
                                 then [(if stream both then streaming_call else generation_call)
                                         (kind (heap ?w' r)) (parameters (heap ?w' r))]
                                 else [])
                        (targets ?cap office ''hi'' both))"
    by (rule A [THEN conjunct2, THEN conjunct2, THEN conjunct2, THEN conjunct2])
  then have 4: "calls_of (trace ?w')
     = [GenerateText (inference_call office ''hi'' True),
        GenerateText [''system'' \<mapsto> JStr ''You are a writer.'', ''model'' \<mapsto> JObj ''M1'',
                      ''prompt'' \<mapsto> JStr ''hi''],
        GenerateObject [''system'' \<mapsto> JStr ''You are a form builder agent.'',
                        ''schema'' \<mapsto> JObj ''z.object'', ''prompt'' \<mapsto> JStr ''hi'',
                        ''model'' \<mapsto> JObj ''M2'']]"
    unfolding ts
    by (simp add: agents_office h0 h1' passes_studio_0 p1 kind_merged k two
                  trace_start parameters_studio_0)
  from 1 2 3 4 show ?thesis
    by (intro conjI)
qed

text \<open>
  C5. After a run of \<open>Network.execute\<close>, every agent the run dispatched holds the
  prompt of the run under \<open>prompt\<close>; in every agent of the store every key other than
  \<open>prompt\<close> and \<open>model\<close> (\<open>tools\<close>, \<open>schema\<close>, \<open>system\<close>, ...) maps to what it mapped to
  before, and no agent changes its class.
\<close>

theorem merge_touches_prompt_and_model_only:
  assumes "execute cap schedule net prompt ps w = (res, w')"
  shows "(\<forall>n \<in> set (targets cap net prompt ps). \<forall>r. map_of (agents net) n = Some r \<longrightarrow>
            parameters (heap w' r) ''prompt'' = Some (JStr prompt))
       \<and> (\<forall>r k. k \<noteq> ''prompt'' \<and> k \<noteq> ''model'' \<longrightarrow>
            parameters (heap w' r) k = parameters (heap w r) k)
       \<and> (\<forall>r. kind (heap w' r) = kind (heap w r))"
proof -
  have h: "\<And>r. heap w' r =
     (if \<exists>n \<in> set (targets cap net prompt ps). map_of (agents net) n = Some r
      then merged net prompt (heap w r) else heap w r)"
    using heap_execute [of cap schedule net prompt ps w] assms by simp
  show ?thesis
    by (auto simp: h parameters_merged kind_merged)
qed

theorem merge_touches_prompt_and_model_only_witness:
  "parameters (heap (snd (execute (scripted ''a, b'') [] office ''hi'' both start)) 0) ''prompt''
     = Some (JStr ''hi'')
   \<and> parameters (heap (snd (execute (scripted ''a, b'') [] office ''hi'' both start)) 0) ''system''
     = Some (JStr ''You are a writer.'')
   \<and> parameters (heap (snd (execute (scripted ''a, b'') [] office ''hi'' both start)) 1) ''schema''
     = Some (JObj ''z.object'')
   \<and> parameters (heap (snd (execute (scripted ''a, b'') [] office ''hi'' both start)) 1) ''prompt''
     = Some (JStr ''hi'')"
proof -
  let ?cap = "scripted ''a, b''"
  let ?w' = "snd (execute ?cap [] office ''hi'' both start)"
  note T = merge_touches_prompt_and_model_only
             [where cap = ?cap and schedule = "[]" and net = office and prompt = "''hi''"
                and ps = both and w = start, OF surjective_pairing]
  have ts: "targets ?cap office ''hi'' both = [''a'', ''b'']"
    by (simp add: targets_a_b both_def)
  have a: "''a'' \<in> set (targets ?cap office ''hi'' both)" "map_of (agents office) ''a'' = Some 0"
    and b: "''b'' \<in> set (targets ?cap office ''hi'' both)" "map_of (agents office) ''b'' = Some 1"
    by (simp_all add: ts agents_office)
  have 1: "parameters (heap ?w' 0) ''prompt'' = Some (JStr ''hi'')"
    by (rule T [THEN conjunct1, rule_format, OF a])
  have 4: "parameters (heap ?w' 1) ''prompt'' = Some (JStr ''hi'')"
    by (rule T [THEN conjunct1, rule_format, OF b])
  have "parameters (heap ?w' 0) ''system'' = parameters (heap start 0) ''system''"
    by (rule T [THEN conjunct2, THEN conjunct1, rule_format]) simp
  then have 2: "parameters (heap ?w' 0) ''system'' = Some (JStr ''You are a writer.'')"
    by (simp add: heap_start studio_def)
  have "parameters (heap ?w' 1) ''schema'' = parameters (heap start 1) ''schema''"
    by (rule T [THEN conjunct2, THEN conjunct1, rule_format]) simp
  then have 3: "parameters (heap ?w' 1) ''schema'' = Some (JObj ''z.object'')"
    by (simp add: heap_start studio_def)
  from 1 2 3 4 show ?thesis
    by (intro conjI)
qed

text \<open>
  C6. In a run that does not stream: without \<open>multipleAgents\<close> exactly the first
  inferred name is dispatched and a returned mapping has that name as its one key; with
  \<open>multipleAgents\<close> every inferred name is dispatched, in order, and a returned mapping
  has exactly the inferred names as keys. A mapping is returned exactly when every
  dispatched name is registered and its agent passes the check of its class.
\<close>

theorem dispatch_policy_and_result_keys:
  assumes "\<not> stream ps" and "execute cap schedule net prompt ps w = (res, w')"
  shows "(\<not> multipleAgents ps \<longrightarrow>
            dispatched (trace w') = dispatched (trace w) @ [hd (inferred cap net prompt False)]
            \<and> (\<forall>m. res = Inr m \<longrightarrow> dom m = {hd (inferred cap net prompt False)} \<and> card (dom m) = 1))
       \<and> (multipleAgents ps \<longrightarrow>
            dispatched (trace w') = dispatched (trace w) @ inferred cap net prompt True
            \<and> (\<forall>m. res = Inr m \<longrightarrow> dom m = set (inferred cap net prompt True)))
       \<and> ((\<exists>m. res = Inr m) \<longleftrightarrow>
            (\<forall>n \<in> set (targets cap net prompt ps). runnable net prompt (heap w) n))"
proof -
  have d: "dispatched (trace w') = dispatched (trace w) @ targets cap net prompt ps"
    using dispatched_execute [of cap schedule net prompt ps w] assms(2) by simp
  have k: "dom m = set (targets cap net prompt ps)" if "res = Inr m" for m
    using nonstream_result(1) [OF assms(1), of cap schedule net prompt w m] assms(2) that by simp
  have i: "(\<exists>m. res = Inr m) \<longleftrightarrow>
            (\<forall>n \<in> set (targets cap net prompt ps). runnable net prompt (heap w) n)"
    using execute_Inr_iff [of cap schedule net prompt ps w] assms(2) by simp
  show ?thesis
  proof (cases "multipleAgents ps")
    case True
    with d k i show ?thesis by (simp add: targets_def)
  next
    case False
    with d k i show ?thesis by (simp add: targets_def)
  qed
qed

theorem dispatch_policy_and_result_keys_witness:
  "dispatched (trace (snd (execute (scripted ''a, b'') [] office ''hi'' default_params start))) = [''a'']
   \<and> (\<exists>m. fst (execute (scripted ''a, b'') [] office ''hi'' default_params start) = Inr m
          \<and> dom m = {''a''})
   \<and> dispatched (trace (snd (execute (scripted ''a, b'') [] office ''hi'' both start))) = [''a'', ''b'']
   \<and> (\<exists>m. fst (execute (scripted ''a, b'') [] office ''hi'' both start) = Inr m
          \<and> dom m = {''a'', ''b''})"
proof -
  let ?cap = "scripted ''a, b''"
  have one: "\<not> stream default_params" "\<not> multipleAgents default_params"
    and two: "\<not> stream both" "multipleAgents both"
    by (simp_all add: default_params_def both_def)
  note S = dispatch_policy_and_result_keys
             [where cap = ?cap and schedule = "[]" and net = office and prompt = "''hi''"
                and w = start, OF one(1) surjective_pairing]
  note M = dispatch_policy_and_result_keys
             [where cap = ?cap and schedule = "[]" and net = office and prompt = "''hi''"
                and w = start, OF two(1) surjective_pairing]
  have n: "inferred ?cap office ''hi'' False = [''a'', ''b'']"
          "inferred ?cap office ''hi'' True = [''a'', ''b'']"
    by (simp_all add: inferred_scripted parse_a_b)
  have 1: "dispatched (trace (snd (execute ?cap [] office ''hi'' default_params start))) = [''a'']"
    using S one(2) by (simp add: n trace_start)
  have 3: "dispatched (trace (snd (execute ?cap [] office ''hi'' both start))) = [''a'', ''b'']"
    using M two(2) by (simp add: n trace_start)
  have "\<forall>n \<in> set (targets ?cap office ''hi'' default_params). runnable office ''hi'' (heap start) n"
    using one(2) by (simp add: targets_a_b heap_start runnable_office)
  with S obtain m where m: "fst (execute ?cap [] office ''hi'' default_params start) = Inr m"
    by blast
  with S one(2) have "dom m = {''a''}"
    by (simp add: n)
  with m have 2: "\<exists>m. fst (execute ?cap [] office ''hi'' default_params start) = Inr m
          \<and> dom m = {''a''}"
    by blast
  have "\<forall>n \<in> set (targets ?cap office ''hi'' both). runnable office ''hi'' (heap start) n"
    using two(2) by (simp add: targets_a_b heap_start runnable_office)
  with M obtain m' where m': "fst (execute ?cap [] office ''hi'' both start) = Inr m'"
    by blast
  with M two(2) have "dom m' = {''a'', ''b''}"
    by (simp add: n)
  with m' have 4: "\<exists>m. fst (execute ?cap [] office ''hi'' both start) = Inr m
          \<and> dom m = {''a'', ''b''}"
    by blast
  show ?thesis
    using 1 2 3 4 by blast
qed




text \<open>
  C8. \<open>setParameters\<close> is a shallow merge that touches nothing but the parameter
  mapping: \<open>{a:1}\<close> then \<open>{b:2}\<close> on an agent without parameters gives \<open>{a:1, b:2}\<close>, a
  further \<open>{a:3}\<close> gives \<open>{a:3, b:2}\<close>, and applying any patch twice in a row is the
  same as applying it once.
\<close>

theorem setParameters_shallow_merge:
  "parameters (setParameters [''b'' \<mapsto> JNum 2]
      (setParameters [''a'' \<mapsto> JNum 1] \<lparr>kind = k, parameters = Map.empty\<rparr>))
     = [''a'' \<mapsto> JNum 1, ''b'' \<mapsto> JNum 2]
   \<and> parameters (setParameters [''a'' \<mapsto> JNum 3]
      (setParameters [''b'' \<mapsto> JNum 2]
        (setParameters [''a'' \<mapsto> JNum 1] \<lparr>kind = k, parameters = Map.empty\<rparr>)))
     = [''a'' \<mapsto> JNum 3, ''b'' \<mapsto> JNum 2]
   \<and> setParameters patch (setParameters patch a) = setParameters patch a
   \<and> kind (setParameters patch a) = kind a
   \<and> parameters (setParameters patch a) key
       = (case patch key of None \<Rightarrow> parameters a key | Some v \<Rightarrow> Some v)"
  by (cases a) (auto simp: setParameters_def fun_eq_iff map_add_def split: option.splits)

text \<open>
  C9. Whatever text the inference call returns, the list of names parsed from it (trim
  the text, split it at the commas, trim each piece) has at least one element, so
  \<open>Network.execute\<close> never raises \<open>NoApplicableAgents\<close>; the text \<open>""\<close> parses to the
  single name \<open>""\<close>.
\<close>

theorem names_never_empty:
  "parse_names text \<noteq> []
   \<and> parse_names '''' = ['''']
   \<and> fst (inferAgents cap net prompt multiple w) \<noteq> []
   \<and> fst (execute cap schedule net prompt ps w) \<noteq> Inl NoApplicableAgents"
  by (simp add: parse_names_not_Nil parse_names_empty inferAgents_eq inferred_not_Nil
                execute_never_NoApplicableAgents)

theorem names_never_empty_witness:
  "parse_names '' , '' = ['''', '''']
   \<and> fst (inferAgents (scripted '' '') (Network Undefined) ''hi'' False
             \<lparr>heap = blank, trace = []\<rparr>) = ['''']
   \<and> fst (execute (scripted '' '') [] (Network Undefined) ''hi'' default_params
             \<lparr>heap = blank, trace = []\<rparr>) \<noteq> Inl NoApplicableAgents"
proof -
  note T = names_never_empty [of "'' , ''" "scripted '' ''" "Network Undefined" "''hi''" False
      "\<lparr>heap = blank, trace = []\<rparr>" "[]" default_params]
  have 1: "parse_names '' , '' = ['''', '''']"
    by (simp add: parse_names_def trim_def white_space_def strip.simps)
  have blank: "parse_names '' '' = ['''']"
    by (simp add: parse_names_def trim_def white_space_def strip.simps)
  have "generateText (scripted '' '') (inference_call (Network Undefined) ''hi'' False) = '' ''"
    by (simp add: scripted_def inference_call_def)
  then have 2: "fst (inferAgents (scripted '' '') (Network Undefined) ''hi'' False
             \<lparr>heap = blank, trace = []\<rparr>) = ['''']"
    by (simp add: inferAgents_def Let_def blank)
  from 1 2 T show ?thesis
    by (intro conjI) simp_all
qed

text \<open>
  C10. The checks of the required parameters test for falsiness: an agent whose
  \<open>prompt\<close> (or \<open>model\<close>, or \<open>schema\<close> for an object agent) is present with a falsy
  value, the empty string for one, raises \<open>MissingParameter\<close> from \<open>execute\<close> and from
  \<open>stream\<close> without calling the capability, exactly as the same agent without the key.
\<close>

theorem falsy_required_parameter_is_missing:
  assumes "k \<in> set (required (kind a))"
      and "parameters a k = Some v" and "\<not> truthy v"
  shows "agent_execute cap a = (Inl (MissingParameter (kind a)), [])
       \<and> agent_stream cap a = (Inl (MissingParameter (kind a)), [])
       \<and> agent_execute cap (a\<lparr>parameters := (parameters a)(k := None)\<rparr>) = agent_execute cap a
       \<and> agent_stream cap (a\<lparr>parameters := (parameters a)(k := None)\<rparr>) = agent_stream cap a"
proof -
  let ?b = "a\<lparr>parameters := (parameters a)(k := None)\<rparr>"
  have "\<not> truthy (param (parameters a) k)"
    using assms(2,3) by (simp add: param_def)
  then have a: "\<not> passes a"
    using assms(1) by (rule passes_falsy [rotated])
  have "k \<in> set (required (kind ?b))" "\<not> truthy (param (parameters ?b) k)"
    using assms(1) by (simp_all add: param_def)
  then have b: "\<not> passes ?b"
    by (rule passes_falsy)
  show ?thesis
    using a b by (simp add: agent_execute_eq agent_stream_eq)
qed

theorem falsy_required_parameter_is_missing_witness:
  "agent_execute (scripted ''a'')
     \<lparr>kind = TextAgent, parameters = [''prompt'' \<mapsto> JStr '''', ''model'' \<mapsto> JObj ''M1'']\<rparr>
     = (Inl (MissingParameter TextAgent), [])
   \<and> agent_stream (scripted ''a'')
     \<lparr>kind = TextAgent, parameters = [''prompt'' \<mapsto> JStr '''', ''model'' \<mapsto> JObj ''M1'']\<rparr>
     = (Inl (MissingParameter TextAgent), [])
   \<and> agent_execute (scripted ''a'')
     \<lparr>kind = TextAgent, parameters = [''model'' \<mapsto> JObj ''M1'']\<rparr>
     = (Inl (MissingParameter TextAgent), [])
   \<and> agent_execute (scripted ''a'')
     \<lparr>kind = ObjectAgent, parameters = [''prompt'' \<mapsto> JStr ''hi'', ''schema'' \<mapsto> JStr '''', ''model'' \<mapsto> JObj ''M1'']\<rparr>
     = (Inl (MissingParameter ObjectAgent), [])"
  using falsy_required_parameter_is_missing
      [of "''prompt''" "\<lparr>kind = TextAgent, parameters = [''prompt'' \<mapsto> JStr '''', ''model'' \<mapsto> JObj ''M1'']\<rparr>"
          "JStr ''''" "scripted ''a''"]
    falsy_required_parameter_is_missing
      [of "''schema''" "\<lparr>kind = ObjectAgent, parameters = [''prompt'' \<mapsto> JStr ''hi'', ''schema'' \<mapsto> JStr '''', ''model'' \<mapsto> JObj ''M1'']\<rparr>"
          "JStr ''''" "scripted ''a''"]
  by (simp add: fun_upd_twist)

end
